theory Spec2Isabelle
  imports Main "HOL-Library.AList"
begin

section \<open>JSON values and the document store\<close>

text \<open>
  The engine works on untyped Go values (\<^verbatim>\<open>interface{}\<close>): nil, bool, float64, string,
  \<^verbatim>\<open>[]interface{}\<close> and \<^verbatim>\<open>map[string]interface{}\<close>, plus the Go \<^verbatim>\<open>int\<close> that an integer
  literal of a filter carries. A float64 is never computed with here; it is carried as the
  decimal text it was read from. A Go map is an association list with distinct keys; its
  iteration order, which Go leaves unspecified, is the order of the list.
\<close>

type_synonym float64 = string

datatype val =
    VNil
  | VBool bool
  | VInt int
  | VFloat float64
  | VStr string
  | VArr "val list"
  | VMap "(string \<times> val) list"

text \<open>
  A footprint's \<^verbatim>\<open>Ref *interface{}\<close> points at a container that lives inside the document.
  The pointer is modelled by the access path of that container from the data holder
  (the slice \<^verbatim>\<open>j.dataHolder\<close>, which is the root): reading through the pointer is
  \<open>valAt\<close>, writing through it is \<open>updAt\<close>. Documents are trees, as the JSON decoder
  builds them.

  In the source the pointer is the address of a variable that holds a copy of the
  container's interface value (\<^verbatim>\<open>v := ref[s.Index]\<close> in \<^verbatim>\<open>Expand\<close>). The copy of a map shares
  the map and the copy of a slice shares its backing array, so reading and writing
  through the copy reads and writes the document, as the path does. The copy and the
  path part company only when the container in the document is replaced after the copy
  was taken. That happens in write mode only: \<^verbatim>\<open>EnforceArraySelection\<close> replaces an array
  that it grows (\<^verbatim>\<open>append\<close>) and a child that is no array (\<^verbatim>\<open>make\<close>), and
  \<^verbatim>\<open>EnforceObjectSelection\<close> a child that is no map. The copy of a grown array keeps the
  old length and, after a reallocation, the old backing array. Along one chain of field,
  index, slice and wildcard nodes the containers of the footprints of one step lie at one
  depth, and a footprint is expanded after the enforcement of its step and used before
  that of the next, so no copy outlives a replacement. Where a union, a filter or a
  recursive descent is evaluated in write mode, a footprint made before a later step
  replaced its container can; whether its writes still reach the document then depends
  on the capacity of the slice, which is not part of a JSON value. The model follows the
  document there: it describes the run in which every pointer is live. In read mode
  nothing is replaced and the model is exact.
\<close>

datatype pstep = PKey string | PIdx nat

type_synonym path = "pstep list"

fun valAt :: "val \<Rightarrow> path \<Rightarrow> val option" where
  "valAt v [] = Some v"
| "valAt (VMap m) (PKey k # ps) = (case map_of m k of Some v \<Rightarrow> valAt v ps | None \<Rightarrow> None)"
| "valAt (VArr xs) (PIdx i # ps) = (if i < length xs then valAt (xs ! i) ps else None)"
| "valAt _ (_ # _) = None"

fun updAt :: "path \<Rightarrow> (val \<Rightarrow> val) \<Rightarrow> val \<Rightarrow> val" where
  "updAt [] f v = f v"
| "updAt (PKey k # ps) f (VMap m) =
     (case map_of m k of
        Some x \<Rightarrow> VMap (AList.update k (updAt ps f x) m)
      | None \<Rightarrow> VMap m)"
| "updAt (PIdx i # ps) f (VArr xs) =
     (if i < length xs then VArr (xs[i := updAt ps f (xs ! i)]) else VArr xs)"
| "updAt (_ # _) f v = v"

section \<open>Errors\<close>

text \<open>
  \<open>Err\<close> is a Go \<^verbatim>\<open>error\<close> value with the text of its message (formatted arguments other
  than strings are left out), \<open>Panic\<close> is a run-time panic (a failed type assertion, an
  index out of range), \<open>Diverged\<close> is a loop that never ends.
\<close>

datatype error = Err string | Panic | Diverged

section \<open>The syntax tree\<close>

text \<open>
  Modelled from the spec: the node types (\<^verbatim>\<open>ListNode\<close>, \<^verbatim>\<open>FieldNode\<close>, \<^verbatim>\<open>ArrayNode\<close>,
  \<^verbatim>\<open>ParamsEntry\<close> and the others) and their constructors \<^verbatim>\<open>newList\<close>, \<^verbatim>\<open>newField\<close>, ...
  are used by the parser and the evaluator but declared in a file that is not among the
  sources. The spec's table of node kinds gives one constructor per kind; the identifier
  node is the one the parser makes for a bare word. A union holds the node lists of its
  children, a filter those of its two sides and its operator.
\<close>

record ParamsEntry =
  Value :: int
  Known :: bool
  Derived :: bool

datatype node =
    ListNode "node list"
  | TextNode string
  | IdentifierNode string
  | FieldNode string
  | WildcardNode
  | RecursiveNode
  | ArrayNode "ParamsEntry list"
  | ArrayElementNode ParamsEntry
  | UnionNode "node list list"
  | FilterNode "node list" "node list" string
  | IntNode int
  | FloatNode float64
  | BoolNode bool

section \<open>The evaluator's state (struct Jsonpath)\<close>

text \<open>
  \<open>parser\<close> is the compiled expression: the nodes of the root list \<^verbatim>\<open>j.parser.Root\<close>,
  or \<open>None\<close> for the nil pointer.
\<close>

record Jsonpath =
  name :: string
  parser :: "node list option"
  writeMode :: bool
  dataHolder :: "val list"
  warnings :: "string list"

definition AddWarning :: "string \<Rightarrow> Jsonpath \<Rightarrow> Jsonpath" where
  "AddWarning warning j = j\<lparr>warnings := warnings j @ [warning]\<rparr>"


definition rootVal :: "Jsonpath \<Rightarrow> val" where
  "rootVal j = VArr (dataHolder j)"

section \<open>Footprints (footprint.go)\<close>

record VirtualInfo =
  Virtual :: bool
  RealSize :: int

record SelectionKey = VirtualInfo +
  Key :: string

record SelectionIndex = VirtualInfo +
  Index :: int

text \<open>
  \<open>MapFootprint leaveItAsItIs Ref SelectionKeys Virtual\<close>,
  \<open>ArrayFootprint leaveItAsItIs Ref SelectionIndexes VirtualInfo\<close>,
  \<open>NonRefFootprint leaveItAsItIs value\<close>.
\<close>

datatype Footprint =
    MapFootprint bool path "SelectionKey list" bool
  | ArrayFootprint bool path "SelectionIndex list" VirtualInfo
  | NonRefFootprint bool val

text \<open>The second argument of \<^verbatim>\<open>NewFootprint\<close>: a selection key, a selection index, or nil.\<close>

datatype virtualInfoArg = FromKey SelectionKey | FromIndex SelectionIndex | NoInfo

text \<open>
  \<^verbatim>\<open>NewFootprint(ptr, virtualInfo)\<close>: \<open>v\<close> is the value \<^verbatim>\<open>*ptr\<close> and \<open>p\<close> the place it was
  read from.
\<close>

definition NewFootprint :: "val \<Rightarrow> path \<Rightarrow> virtualInfoArg \<Rightarrow> Footprint" where
  "NewFootprint v p virtualInfo =
     (let virtual = (case virtualInfo of FromKey sk \<Rightarrow> Virtual sk
                       | FromIndex si \<Rightarrow> Virtual si | NoInfo \<Rightarrow> False);
          realSize = (case virtualInfo of FromKey sk \<Rightarrow> RealSize sk
                       | FromIndex si \<Rightarrow> RealSize si | NoInfo \<Rightarrow> 0)
      in case v of
           VMap _ \<Rightarrow> MapFootprint False p [] virtual
         | VArr _ \<Rightarrow> ArrayFootprint False p [] \<lparr>Virtual = virtual, RealSize = realSize\<rparr>
         | _ \<Rightarrow> NonRefFootprint False v)"

fun LeaveItAsItIs :: "Footprint \<Rightarrow> Footprint" where
  "LeaveItAsItIs (MapFootprint l r sks v) = MapFootprint True r sks v"
| "LeaveItAsItIs (ArrayFootprint l r sis vi) = ArrayFootprint True r sis vi"
| "LeaveItAsItIs (NonRefFootprint l x) = NonRefFootprint True x"

text \<open>
  \<^verbatim>\<open>HolderPtr\<close>, dereferenced: the container a footprint points at, or the scalar a
  \<open>NonRefFootprint\<close> owns. \<open>None\<close> is a path that no longer leads anywhere.
\<close>

fun HolderPtr :: "Jsonpath \<Rightarrow> Footprint \<Rightarrow> val option" where
  "HolderPtr j (MapFootprint l r sks v) = valAt (rootVal j) r"
| "HolderPtr j (ArrayFootprint l r sis vi) = valAt (rootVal j) r"
| "HolderPtr j (NonRefFootprint l x) = Some x"

text \<open>The loop of \<^verbatim>\<open>MapFootprint.Expand\<close>; a missing key reads as nil.\<close>

fun expandKeys :: "(string \<times> val) list \<Rightarrow> path \<Rightarrow> SelectionKey list \<Rightarrow> Footprint list" where
  "expandKeys ref p [] = []"
| "expandKeys ref p (sk # sks) =
     NewFootprint (case map_of ref (Key sk) of Some v \<Rightarrow> v | None \<Rightarrow> VNil)
       (p @ [PKey (Key sk)]) (FromKey sk) # expandKeys ref p sks"

text \<open>The loop of \<^verbatim>\<open>ArrayFootprint.Expand\<close>; \<^verbatim>\<open>ref[s.Index]\<close> panics out of range.\<close>

fun expandIndexes :: "val list \<Rightarrow> path \<Rightarrow> SelectionIndex list \<Rightarrow> error + Footprint list" where
  "expandIndexes ref p [] = Inr []"
| "expandIndexes ref p (s # ss) =
     (if Index s < 0 \<or> int (length ref) \<le> Index s then Inl Panic
      else case expandIndexes ref p ss of
             Inl e \<Rightarrow> Inl e
           | Inr rest \<Rightarrow>
               Inr (NewFootprint (ref ! nat (Index s)) (p @ [PIdx (nat (Index s))]) (FromIndex s)
                    # rest))"

fun Expand :: "Jsonpath \<Rightarrow> Footprint \<Rightarrow> error + Footprint list" where
  "Expand j (MapFootprint l r sks v) =
     (if l then Inr [MapFootprint False r sks v]
      else if length sks = 0 then Inr []
      else case valAt (rootVal j) r of
             Some (VMap ref) \<Rightarrow> Inr (expandKeys ref r sks)
           | _ \<Rightarrow> Inl Panic)"
| "Expand j (ArrayFootprint l r sis vi) =
     (if l then Inr [ArrayFootprint False r sis vi]
      else if length sis = 0 then Inr []
      else case valAt (rootVal j) r of
             Some (VArr ref) \<Rightarrow> expandIndexes ref r sis
           | _ \<Rightarrow> Inl Panic)"
| "Expand j (NonRefFootprint l x) =
     (let l' = False
      in if l' then Inr [NonRefFootprint l' x]
         else Inl (Err ''non-reference foot print cannot be expand''))"

fun selectAllKeys :: "(string \<times> val) list \<Rightarrow> SelectionKey list" where
  "selectAllKeys [] = []"
| "selectAllKeys ((k, v) # kvs) = \<lparr>Virtual = False, RealSize = -1, Key = k\<rparr> # selectAllKeys kvs"

definition selectAllIndexes :: "nat \<Rightarrow> SelectionIndex list" where
  "selectAllIndexes n = map (\<lambda>i. \<lparr>Virtual = False, RealSize = -1, Index = int i\<rparr>) [0..<n]"

fun SelectAll :: "Jsonpath \<Rightarrow> Footprint \<Rightarrow> error + Footprint" where
  "SelectAll j (MapFootprint l r sks v) =
     (case valAt (rootVal j) r of
        Some (VMap ref) \<Rightarrow> Inr (MapFootprint l r (selectAllKeys ref) v)
      | _ \<Rightarrow> Inl Panic)"
| "SelectAll j (ArrayFootprint l r sis vi) =
     (case valAt (rootVal j) r of
        Some (VArr ref) \<Rightarrow> Inr (ArrayFootprint l r (selectAllIndexes (length ref)) vi)
      | _ \<Rightarrow> Inl Panic)"
| "SelectAll j (NonRefFootprint l x) = Inl (Err ''SelectAll is not supported by NonRefFootprint'')"

section \<open>Expansion of a footprint set (handlers.go)\<close>

text \<open>
  \<^verbatim>\<open>expandFootprints\<close>. A footprint whose \<^verbatim>\<open>Expand\<close> returns an error is kept as it is when
  \<open>remainUnexpandableFootprint\<close> is set and contributes nothing otherwise; a panic is not
  an error value and ends the run.
\<close>

fun expandLoop :: "Jsonpath \<Rightarrow> Footprint list \<Rightarrow> bool \<Rightarrow> error + Footprint list" where
  "expandLoop j [] remain = Inr []"
| "expandLoop j (fp # fps) remain =
     (case Expand j fp of
        Inl Panic \<Rightarrow> Inl Panic
      | Inl Diverged \<Rightarrow> Inl Diverged
      | Inl (Err e) \<Rightarrow>
          (case expandLoop j fps remain of
             Inl e' \<Rightarrow> Inl e'
           | Inr rest \<Rightarrow> Inr (if remain then fp # rest else rest))
      | Inr new \<Rightarrow>
          (case expandLoop j fps remain of
             Inl e' \<Rightarrow> Inl e'
           | Inr rest \<Rightarrow> Inr (new @ rest)))"

definition expandFootprints :: "Jsonpath \<Rightarrow> Footprint list \<Rightarrow> bool \<Rightarrow> error + Footprint list" where
  "expandFootprints j footprints remainUnexpandableFootprint =
     (if length footprints = 0 then Inr footprints
      else expandLoop j footprints remainUnexpandableFootprint)"

section \<open>Writing through a footprint (footprint.go)\<close>

text \<open>
  \<^verbatim>\<open>(*ref).(map[string]interface{})[key] = data\<close> and \<^verbatim>\<open>(*ref).([]interface{})[i] = data\<close>
  for the container at path \<open>r\<close>. The callers below check the index first, as Go would
  panic out of range.
\<close>

definition writeRoot :: "val \<Rightarrow> Jsonpath \<Rightarrow> Jsonpath" where
  "writeRoot v j = (case v of VArr ds \<Rightarrow> j\<lparr>dataHolder := ds\<rparr> | _ \<Rightarrow> j)"

definition mapStore :: "path \<Rightarrow> string \<Rightarrow> val \<Rightarrow> Jsonpath \<Rightarrow> Jsonpath" where
  "mapStore r key data j =
     writeRoot (updAt r (\<lambda>v. case v of VMap m \<Rightarrow> VMap (AList.update key data m) | _ \<Rightarrow> v)
                  (rootVal j)) j"

definition sliceStore :: "path \<Rightarrow> nat \<Rightarrow> val \<Rightarrow> Jsonpath \<Rightarrow> Jsonpath" where
  "sliceStore r i data j =
     writeRoot (updAt r (\<lambda>v. case v of VArr xs \<Rightarrow> VArr (xs[i := data]) | _ \<Rightarrow> v)
                  (rootVal j)) j"

text \<open>
  The body of the loop of \<^verbatim>\<open>EnforceArraySelection\<close>, shared by both containers: \<open>cur\<close>
  is the selected child, \<open>store\<close> writes the child back. It returns the new
  \<^verbatim>\<open>RealSize\<close> of the selection entry. \<^verbatim>\<open>make([]interface{}, size)\<close> panics on a negative
  size (the argument \<open>sz\<close>).
\<close>

definition enforceArrayChild ::
  "int \<Rightarrow> bool \<Rightarrow> val \<Rightarrow> (val \<Rightarrow> Jsonpath \<Rightarrow> Jsonpath) \<Rightarrow> Jsonpath \<Rightarrow> (error + int) \<times> Jsonpath" where
  "enforceArrayChild sz virtual cur store j =
     (case cur of
        VArr arr \<Rightarrow>
          (let realSize = int (length arr)
           in if sz \<noteq> -1 \<and> realSize < sz
              then (Inr realSize, store (VArr (arr @ replicate (nat (sz - realSize)) VNil)) j)
              else (Inr realSize, j))
      | _ \<Rightarrow>
          if \<not> virtual then (Inl (Err ''the selection is not an array or a virtual''), j)
          else if sz = -1 then (Inl (Err ''cannot use * to set in a virtual''), j)
          else if sz < 0 then (Inl Panic, j)
          else (Inr (-1), store (VArr (replicate (nat sz) VNil)) j))"

fun enforceArrayKeys ::
  "int \<Rightarrow> path \<Rightarrow> SelectionKey list \<Rightarrow> Jsonpath \<Rightarrow> (error + SelectionKey list) \<times> Jsonpath" where
  "enforceArrayKeys sz r [] j = (Inr [], j)"
| "enforceArrayKeys sz r (s # ss) j =
     (case valAt (rootVal j) r of
        Some (VMap ref) \<Rightarrow>
          (case map_of ref (Key s) of
             None \<Rightarrow> (Inl (Err (''cannot find the element by key: '' @ Key s)), j)
           | Some cur \<Rightarrow>
               (case enforceArrayChild sz (Virtual s) cur (mapStore r (Key s)) j of
                  (Inl e, j') \<Rightarrow> (Inl e, j')
                | (Inr realSize, j') \<Rightarrow>
                    (case enforceArrayKeys sz r ss j' of
                       (Inl e, j'') \<Rightarrow> (Inl e, j'')
                     | (Inr ss', j'') \<Rightarrow> (Inr (s\<lparr>RealSize := realSize\<rparr> # ss'), j''))))
      | _ \<Rightarrow> (Inl Panic, j))"

text \<open>
  The guard of the array variant is \<^verbatim>\<open>s.Index > len(ref)\<close>: an index equal to the length
  passes it, and \<^verbatim>\<open>ref[s.Index]\<close> then panics.
\<close>

fun enforceArrayIndexes ::
  "int \<Rightarrow> path \<Rightarrow> SelectionIndex list \<Rightarrow> Jsonpath \<Rightarrow> (error + SelectionIndex list) \<times> Jsonpath" where
  "enforceArrayIndexes sz r [] j = (Inr [], j)"
| "enforceArrayIndexes sz r (s # ss) j =
     (case valAt (rootVal j) r of
        Some (VArr ref) \<Rightarrow>
          if Index s < 0 \<or> Index s > int (length ref)
          then (Inl (Err ''invalid index when EnforceArraySelection''), j)
          else if Index s = int (length ref) then (Inl Panic, j)
          else
            (case enforceArrayChild sz (Virtual s) (ref ! nat (Index s))
                    (sliceStore r (nat (Index s))) j of
               (Inl e, j') \<Rightarrow> (Inl e, j')
             | (Inr realSize, j') \<Rightarrow>
                 (case enforceArrayIndexes sz r ss j' of
                    (Inl e, j'') \<Rightarrow> (Inl e, j'')
                  | (Inr ss', j'') \<Rightarrow> (Inr (s\<lparr>RealSize := realSize\<rparr> # ss'), j'')))
      | _ \<Rightarrow> (Inl Panic, j))"

text \<open>
  \<^verbatim>\<open>EnforceArraySelection(size)\<close>. The method writes the new \<^verbatim>\<open>RealSize\<close> into the entries
  of the selection slice, which the caller's footprint shares; the model returns the
  footprint with the updated entries and the caller goes on with it. The entries are
  shared as well by the footprints that \<^verbatim>\<open>evalUnion\<close> hands to its next member; the model
  does not follow that sharing, the next member starts from the footprints as they were.
  \<^verbatim>\<open>RealSize\<close> is read by \<^verbatim>\<open>evalArray\<close> and \<^verbatim>\<open>evalArrayElement\<close> only, from footprints they have
  just expanded, and in write mode they enforce every entry before they expand.
\<close>

fun EnforceArraySelection :: "int \<Rightarrow> Footprint \<Rightarrow> Jsonpath \<Rightarrow> (error + Footprint) \<times> Jsonpath" where
  "EnforceArraySelection sz (MapFootprint l r sks v) j =
     (case valAt (rootVal j) r of
        Some (VMap ref) \<Rightarrow>
          (case enforceArrayKeys sz r sks j of
             (Inl e, j') \<Rightarrow> (Inl e, j')
           | (Inr sks', j') \<Rightarrow> (Inr (MapFootprint l r sks' v), j'))
      | _ \<Rightarrow> (Inl Panic, j))"
| "EnforceArraySelection sz (ArrayFootprint l r sis vi) j =
     (case valAt (rootVal j) r of
        Some (VArr ref) \<Rightarrow>
          (case enforceArrayIndexes sz r sis j of
             (Inl e, j') \<Rightarrow> (Inl e, j')
           | (Inr sis', j') \<Rightarrow> (Inr (ArrayFootprint l r sis' vi), j'))
      | _ \<Rightarrow> (Inl Panic, j))"
| "EnforceArraySelection sz (NonRefFootprint l x) j =
     (Inl (Err ''EnforceArraySelection is not supported by NonRefFootprint''), j)"

definition enforceObjectChild ::
  "bool \<Rightarrow> val \<Rightarrow> (val \<Rightarrow> Jsonpath \<Rightarrow> Jsonpath) \<Rightarrow> Jsonpath \<Rightarrow> error option \<times> Jsonpath" where
  "enforceObjectChild virtual cur store j =
     (case cur of
        VMap m \<Rightarrow> (None, j)
      | _ \<Rightarrow> if virtual then (None, store (VMap []) j)
             else (Some (Err ''the selection is not an array or a virtual''), j))"

fun enforceObjectKeys :: "path \<Rightarrow> SelectionKey list \<Rightarrow> Jsonpath \<Rightarrow> error option \<times> Jsonpath" where
  "enforceObjectKeys r [] j = (None, j)"
| "enforceObjectKeys r (s # ss) j =
     (case valAt (rootVal j) r of
        Some (VMap ref) \<Rightarrow>
          (case map_of ref (Key s) of
             None \<Rightarrow> (Some (Err (''cannot find the element by key: '' @ Key s)), j)
           | Some cur \<Rightarrow>
               (case enforceObjectChild (Virtual s) cur (mapStore r (Key s)) j of
                  (Some e, j') \<Rightarrow> (Some e, j')
                | (None, j') \<Rightarrow> enforceObjectKeys r ss j'))
      | _ \<Rightarrow> (Some Panic, j))"

fun enforceObjectIndexes :: "path \<Rightarrow> SelectionIndex list \<Rightarrow> Jsonpath \<Rightarrow> error option \<times> Jsonpath" where
  "enforceObjectIndexes r [] j = (None, j)"
| "enforceObjectIndexes r (s # ss) j =
     (case valAt (rootVal j) r of
        Some (VArr ref) \<Rightarrow>
          if Index s < 0 \<or> Index s > int (length ref)
          then (Some (Err ''invalid index when EnforceObjectSelection''), j)
          else if Index s = int (length ref) then (Some Panic, j)
          else
            (case enforceObjectChild (Virtual s) (ref ! nat (Index s))
                    (sliceStore r (nat (Index s))) j of
               (Some e, j') \<Rightarrow> (Some e, j')
             | (None, j') \<Rightarrow> enforceObjectIndexes r ss j')
      | _ \<Rightarrow> (Some Panic, j))"

fun EnforceObjectSelection :: "Footprint \<Rightarrow> Jsonpath \<Rightarrow> error option \<times> Jsonpath" where
  "EnforceObjectSelection (MapFootprint l r sks v) j =
     (case valAt (rootVal j) r of
        Some (VMap ref) \<Rightarrow> enforceObjectKeys r sks j
      | _ \<Rightarrow> (Some Panic, j))"
| "EnforceObjectSelection (ArrayFootprint l r sis vi) j =
     (case valAt (rootVal j) r of
        Some (VArr ref) \<Rightarrow> enforceObjectIndexes r sis j
      | _ \<Rightarrow> (Some Panic, j))"
| "EnforceObjectSelection (NonRefFootprint l x) j =
     (Some (Err ''EnforceObjectSelection is not supported by NonRefFootprint''), j)"




section \<open>Go's int\<close>

text \<open>
  Go's \<^verbatim>\<open>int\<close> is 64 bits wide and its addition wraps around. Integers are modelled by
  \<open>int\<close>, and every addition of the source that can leave the range is \<open>goAdd\<close>.
\<close>

definition int64 :: "int \<Rightarrow> int" where
  "int64 x = (x + 2 ^ 63) mod 2 ^ 64 - 2 ^ 63"

definition goAdd :: "int \<Rightarrow> int \<Rightarrow> int" where
  "goAdd a b = int64 (a + b)"

definition isInt64 :: "int \<Rightarrow> bool" where
  "isInt64 x \<longleftrightarrow> - (2 ^ 63) \<le> x \<and> x < 2 ^ 63"

section \<open>Field access (handlers.go)\<close>

type_synonym res = "(error + Footprint list) \<times> Jsonpath"

fun holderRef :: "Footprint \<Rightarrow> path option" where
  "holderRef (MapFootprint l r sks v) = Some r"
| "holderRef (ArrayFootprint l r sis vi) = Some r"
| "holderRef (NonRefFootprint l x) = None"

fun enforceObjectAll :: "Footprint list \<Rightarrow> Jsonpath \<Rightarrow> error option \<times> Jsonpath" where
  "enforceObjectAll [] j = (None, j)"
| "enforceObjectAll (footprint # footprints) j =
     (case EnforceObjectSelection footprint j of
        (Some e, j') \<Rightarrow> (Some e, j')
      | (None, j') \<Rightarrow> enforceObjectAll footprints j')"

text \<open>
  The second loop of \<^verbatim>\<open>evalField\<close>. A holder that is not a map takes no branch: the
  \<^verbatim>\<open>else\<close> that returned an error for it is commented out in the source. A footprint
  that owns its value has no place in the document that a new footprint could refer to;
  no such footprint holds a map.
\<close>

fun fieldLoop :: "string \<Rightarrow> Footprint list \<Rightarrow> Footprint list \<Rightarrow> Jsonpath \<Rightarrow> res" where
  "fieldLoop nm [] result j = (Inr result, j)"
| "fieldLoop nm (fp # fps) result j =
     (case HolderPtr j fp of
        None \<Rightarrow> (Inl Panic, j)
      | Some (VMap m) \<Rightarrow>
          (case holderRef fp of
             None \<Rightarrow> (Inl Panic, j)
           | Some ref \<Rightarrow>
               (case map_of m nm of
                  Some _ \<Rightarrow>
                    fieldLoop nm fps
                      (result @ [MapFootprint False ref
                                   [\<lparr>Virtual = False, RealSize = -1, Key = nm\<rparr>] False]) j
                | None \<Rightarrow>
                    if writeMode j
                    then fieldLoop nm fps
                           (result @ [MapFootprint False ref
                                        [\<lparr>Virtual = True, RealSize = -1, Key = nm\<rparr>] False])
                           (mapStore ref nm (VMap []) j)
                    else fieldLoop nm fps result
                           (AddWarning (''cannot find the field: '' @ nm) j)))
      | Some _ \<Rightarrow> fieldLoop nm fps result j)"

definition evalField :: "Jsonpath \<Rightarrow> Footprint list \<Rightarrow> string \<Rightarrow> res" where
  "evalField j footprints nm =
     (case (if writeMode j then enforceObjectAll footprints j else (None, j)) of
        (Some e, j') \<Rightarrow> (Inl e, j')
      | (None, j') \<Rightarrow>
          (case expandFootprints j' footprints False of
             Inl e \<Rightarrow> (Inl e, j')
           | Inr fps \<Rightarrow> fieldLoop nm fps [] j'))"

section \<open>Slices (handlers.go)\<close>

text \<open>
  \<^verbatim>\<open>inferArrayNode\<close>: \<open>arr\<close> is the array, \<open>params\<close> is \<^verbatim>\<open>node.Params\<close>. The result is
  \<open>(base, limit, step, needInvert)\<close>. Reading \<^verbatim>\<open>node.Params[2]\<close> of a shorter slice
  panics.
\<close>

definition inferArrayNode :: "val list \<Rightarrow> ParamsEntry list \<Rightarrow> error + (int \<times> int \<times> int \<times> bool)" where
  "inferArrayNode arr params =
     (if length params = 1
      then Inr (Value (params ! 0), goAdd (Value (params ! 0)) 1, 1, False)
      else case params of
        x # y # z # _ \<Rightarrow>
          (let len = int (length arr);
               step0 = (if Known z then Value z else 0);
               step = (if step0 = 0 then 1 else step0);
               needInvert = (step0 \<noteq> 0 \<and> step0 < 0);
               base0 = (if Value x > len - 1 then (if step < 0 then len - 1 else Value x)
                        else if Value x \<ge> 0 then Value x
                        else if Value x \<ge> - len then goAdd (Value x) len
                        else 0);
               limit0 = (if Value y \<ge> 0 then Value y
                         else if Value y \<ge> - len then goAdd (Value y) len
                         else -1);
               base = (if \<not> Known x then (if step > 0 then 0 else len - 1) else base0);
               limit = (if \<not> Known y then (if step > 0 then len else -1) else limit0)
           in Inr (base, limit, step, needInvert))
      | _ \<Rightarrow> Inl Panic)"

definition newIndex :: "bool \<Rightarrow> int \<Rightarrow> int \<Rightarrow> SelectionIndex" where
  "newIndex wm realSize i = \<lparr>Virtual = (wm \<and> i \<ge> realSize), RealSize = -1, Index = i\<rparr>"

text \<open>
  The two \<^verbatim>\<open>for\<close> loops of \<^verbatim>\<open>evalArray\<close>. Nothing in the loops themselves keeps them from
  running forever (a step of 0 would): a run that does not end is \<open>None\<close>.
\<close>

partial_function (option) invertLoop ::
  "bool \<Rightarrow> int \<Rightarrow> int \<Rightarrow> int \<Rightarrow> int \<Rightarrow> int \<Rightarrow> SelectionIndex list \<Rightarrow> SelectionIndex list option" where
  "invertLoop wm realSize len limit step i indexes =
     (if i < len \<and> i > -1 \<and> i > limit
      then invertLoop wm realSize len limit step (goAdd i step) (indexes @ [newIndex wm realSize i])
      else Some indexes)"

partial_function (option) forwardLoop ::
  "bool \<Rightarrow> int \<Rightarrow> int \<Rightarrow> int \<Rightarrow> int \<Rightarrow> int \<Rightarrow> SelectionIndex list \<Rightarrow> SelectionIndex list option" where
  "forwardLoop wm realSize len limit step i indexes =
     (if i < len \<and> i > -1 \<and> i < limit
      then forwardLoop wm realSize len limit step (goAdd i step) (indexes @ [newIndex wm realSize i])
      else Some indexes)"

declare invertLoop.simps [code] forwardLoop.simps [code]

text \<open>The indexes that \<^verbatim>\<open>evalArray\<close> selects in one array.\<close>

definition sliceIndexes ::
  "bool \<Rightarrow> int \<Rightarrow> val list \<Rightarrow> ParamsEntry list \<Rightarrow> error + SelectionIndex list" where
  "sliceIndexes wm realSize arr params =
     (case inferArrayNode arr params of
        Inl e \<Rightarrow> Inl e
      | Inr (base, limit, step, needInvert) \<Rightarrow>
          (case (if needInvert
                 then invertLoop wm realSize (int (length arr)) limit step base []
                 else forwardLoop wm realSize (int (length arr)) limit step base []) of
             None \<Rightarrow> Inl Diverged
           | Some indexes \<Rightarrow> Inr indexes))"

fun arrayLoop :: "ParamsEntry list \<Rightarrow> Footprint list \<Rightarrow> Footprint list \<Rightarrow> Jsonpath \<Rightarrow> res" where
  "arrayLoop params [] result j = (Inr result, j)"
| "arrayLoop params (footprint # fps) result j =
     (case HolderPtr j footprint of
        None \<Rightarrow> (Inl Panic, j)
      | Some (VArr arr) \<Rightarrow>
          (case footprint of
             ArrayFootprint l r sis vi \<Rightarrow>
               (case sliceIndexes (writeMode j) (RealSize vi) arr params of
                  Inl e \<Rightarrow> (Inl e, j)
                | Inr indexes \<Rightarrow>
                    arrayLoop params fps
                      (result @ [ArrayFootprint False r indexes \<lparr>Virtual = False, RealSize = 0\<rparr>]) j)
           | _ \<Rightarrow> (Inl Panic, j))
      | Some _ \<Rightarrow>
          arrayLoop params fps result
            (AddWarning ''cannot use a index number to find a element in a non-array object'' j))"

fun enforceArrayAll :: "int \<Rightarrow> Footprint list \<Rightarrow> Jsonpath \<Rightarrow> (error + Footprint list) \<times> Jsonpath" where
  "enforceArrayAll sz [] j = (Inr [], j)"
| "enforceArrayAll sz (footprint # footprints) j =
     (case EnforceArraySelection sz footprint j of
        (Inl e, j') \<Rightarrow> (Inl e, j')
      | (Inr footprint', j') \<Rightarrow>
          (case enforceArrayAll sz footprints j' of
             (Inl e, j'') \<Rightarrow> (Inl e, j'')
           | (Inr footprints', j'') \<Rightarrow> (Inr (footprint' # footprints'), j'')))"

text \<open>
  The write-mode prologue of \<^verbatim>\<open>evalArray\<close>: it sets \<^verbatim>\<open>node.Params[0].Value\<close> to 0 when the
  start is unknown and computes \<^verbatim>\<open>tail\<close>, the size the selected arrays are grown to.
\<close>

definition normParams :: "ParamsEntry list \<Rightarrow> ParamsEntry list" where
  "normParams params =
     (case params of
        x # rest \<Rightarrow> (if \<not> Known x then x\<lparr>Value := 0\<rparr> else x) # rest
      | [] \<Rightarrow> [])"

definition arrayTail :: "ParamsEntry list \<Rightarrow> error + int" where
  "arrayTail params =
     (case normParams params of
        x # y # z # _ \<Rightarrow>
          (let tail = (if \<not> Known y then goAdd (Value x) 1 else Value y)
           in if Value x = 0 \<and> Value y = 0 \<and> Value z = 0 then Inr (-1) else Inr tail)
      | _ \<Rightarrow> Inl Panic)"

definition evalArray :: "Jsonpath \<Rightarrow> Footprint list \<Rightarrow> ParamsEntry list \<Rightarrow> res" where
  "evalArray j footprints params =
     (if writeMode j \<and> footprints \<noteq> []
      then (case arrayTail params of
              Inl e \<Rightarrow> (Inl e, j)
            | Inr tail \<Rightarrow>
                (case enforceArrayAll tail footprints j of
                   (Inl e, j') \<Rightarrow> (Inl e, j')
                 | (Inr footprints', j') \<Rightarrow>
                     (case expandFootprints j' footprints' False of
                        Inl e \<Rightarrow> (Inl e, j')
                      | Inr fps \<Rightarrow> arrayLoop (normParams params) fps [] j')))
      else (case expandFootprints j footprints False of
              Inl e \<Rightarrow> (Inl e, j)
            | Inr fps \<Rightarrow> arrayLoop params fps [] j))"

section \<open>Single index (handlers.go)\<close>

fun arrayElementLoop :: "ParamsEntry \<Rightarrow> Footprint list \<Rightarrow> Footprint list \<Rightarrow> Jsonpath \<Rightarrow> res" where
  "arrayElementLoop nd [] result j = (Inr result, j)"
| "arrayElementLoop nd (footprint # fps) result j =
     (case HolderPtr j footprint of
        None \<Rightarrow> (Inl Panic, j)
      | Some (VArr arr) \<Rightarrow>
          (case footprint of
             ArrayFootprint l r sis vi \<Rightarrow>
               (let len = int (length arr);
                    realSize = RealSize vi;
                    i = (if Value nd \<ge> 0 \<and> Value nd \<le> len - 1 then Value nd
                         else if Value nd \<ge> - len then goAdd (Value nd) len
                         else -1);
                    indexes = (if i \<ge> 0 \<and> i < len then [newIndex (writeMode j) realSize i] else [])
                in arrayElementLoop nd fps
                     (result @ [ArrayFootprint False r indexes \<lparr>Virtual = False, RealSize = 0\<rparr>]) j)
           | _ \<Rightarrow> (Inl Panic, j))
      | Some _ \<Rightarrow>
          arrayElementLoop nd fps result
            (AddWarning ''cannot use a index number to find a element in a non-array object'' j))"

definition evalArrayElement :: "Jsonpath \<Rightarrow> Footprint list \<Rightarrow> ParamsEntry \<Rightarrow> res" where
  "evalArrayElement j footprints nd =
     (if writeMode j
      then (if Value nd < 0 then (Inl (Err ''cannot use a negative index in set mode''), j)
            else if \<not> Known nd then (Inl (Err ''index unknown in set mode''), j)
            else (case enforceArrayAll (goAdd (Value nd) 1) footprints j of
                    (Inl e, j') \<Rightarrow> (Inl e, j')
                  | (Inr footprints', j') \<Rightarrow>
                      (case expandFootprints j' footprints' False of
                         Inl e \<Rightarrow> (Inl e, j')
                       | Inr fps \<Rightarrow> arrayElementLoop nd fps [] j')))
      else (case expandFootprints j footprints False of
              Inl e \<Rightarrow> (Inl e, j)
            | Inr fps \<Rightarrow> arrayElementLoop nd fps [] j))"

section \<open>Wildcard and literals (handlers.go)\<close>

text \<open>
  \<^verbatim>\<open>evalWildcard\<close>: a footprint that cannot select all is left as it is; the message goes
  to the process log, not to the warnings.
\<close>

fun wildcardLoop :: "Jsonpath \<Rightarrow> Footprint list \<Rightarrow> error + Footprint list" where
  "wildcardLoop j [] = Inr []"
| "wildcardLoop j (footprint # fps) =
     (case SelectAll j footprint of
        Inl (Err e) \<Rightarrow>
          (case wildcardLoop j fps of Inl e' \<Rightarrow> Inl e' | Inr rest \<Rightarrow> Inr (footprint # rest))
      | Inl e \<Rightarrow> Inl e
      | Inr selected \<Rightarrow>
          (case wildcardLoop j fps of Inl e' \<Rightarrow> Inl e' | Inr rest \<Rightarrow> Inr (selected # rest)))"

definition evalWildcard :: "Jsonpath \<Rightarrow> Footprint list \<Rightarrow> res" where
  "evalWildcard j footprints =
     (case expandFootprints j footprints False of
        Inl e \<Rightarrow> (Inl e, j)
      | Inr fps \<Rightarrow> (wildcardLoop j fps, j))"

definition evalInt :: "Jsonpath \<Rightarrow> Footprint list \<Rightarrow> int \<Rightarrow> res" where
  "evalInt j footprints v =
     (case expandFootprints j footprints False of
        Inl e \<Rightarrow> (Inl e, j)
      | Inr fps \<Rightarrow> (Inr (map (\<lambda>_. NewFootprint (VInt v) [] NoInfo) fps), j))"

definition evalBool :: "Jsonpath \<Rightarrow> Footprint list \<Rightarrow> bool \<Rightarrow> res" where
  "evalBool j footprints v =
     (case expandFootprints j footprints False of
        Inl e \<Rightarrow> (Inl e, j)
      | Inr fps \<Rightarrow> (Inr (map (\<lambda>_. NewFootprint (VBool v) [] NoInfo) fps), j))"

definition evalFloat :: "Jsonpath \<Rightarrow> Footprint list \<Rightarrow> float64 \<Rightarrow> res" where
  "evalFloat j footprints v =
     (case expandFootprints j footprints False of
        Inl e \<Rightarrow> (Inl e, j)
      | Inr fps \<Rightarrow> (Inr (map (\<lambda>_. NewFootprint (VFloat v) [] NoInfo) fps), j))"

section \<open>Recursive descent (handlers.go)\<close>

text \<open>
  \<^verbatim>\<open>recursivelyCollectFootprint\<close> walks the document below a footprint. It ends because
  every child that \<^verbatim>\<open>SelectAll\<close> and \<^verbatim>\<open>Expand\<close> produce points at a strictly smaller value
  (or is the footprint itself with its leave-as-is flag cleared); \<open>footprintWeight\<close>
  measures that.
\<close>

definition footprintWeight :: "Jsonpath \<Rightarrow> Footprint \<Rightarrow> nat" where
  "footprintWeight j fp =
     2 * (case HolderPtr j fp of Some v \<Rightarrow> size v | None \<Rightarrow> 0)
     + (case fp of MapFootprint l r sks v \<Rightarrow> if l then 1 else 0
         | ArrayFootprint l r sis vi \<Rightarrow> if l then 1 else 0
         | NonRefFootprint l x \<Rightarrow> 0)"

lemma valAt_append: "valAt v (p @ q) = (case valAt v p of None \<Rightarrow> None | Some w \<Rightarrow> valAt w q)"
  by (induction v p rule: valAt.induct) (auto split: option.splits)

lemma map_of_size: "map_of m k = Some v \<Longrightarrow> size v < size (VMap m)"
  by (induction m) (auto split: if_splits)

lemma mem_size: "x \<in> set xs \<Longrightarrow> size x < size (VArr xs)"
  by (induction xs) auto

lemma nth_size: "i < length xs \<Longrightarrow> size (xs ! i) < size (VArr xs)"
  using mem_size nth_mem by blast

lemma NewFootprint_weight:
  "valAt (rootVal j) (r @ [s]) = Some v \<or> (\<forall>m. v \<noteq> VMap m) \<and> (\<forall>xs. v \<noteq> VArr xs) \<Longrightarrow>
   footprintWeight j (NewFootprint v (r @ [s]) a) = 2 * size v"
  by (cases v) (auto simp: footprintWeight_def NewFootprint_def)

lemma expandKeys_weight:
  "valAt (rootVal j) r = Some (VMap ref) \<Longrightarrow> c \<in> set (expandKeys ref r sks) \<Longrightarrow>
   footprintWeight j c < 2 * size (VMap ref)"
proof (induction sks)
  case Nil then show ?case by simp
next
  case (Cons sk sks)
  show ?case
  proof (cases "c \<in> set (expandKeys ref r sks)")
    case True with Cons show ?thesis by simp
  next
    case False
    with Cons.prems have c: "c = NewFootprint (case map_of ref (Key sk) of Some v \<Rightarrow> v | None \<Rightarrow> VNil)
       (r @ [PKey (Key sk)]) (FromKey sk)" by simp
    show ?thesis
    proof (cases "map_of ref (Key sk)")
      case None
      then show ?thesis using c by (simp add: NewFootprint_weight)
    next
      case (Some v)
      then have "valAt (rootVal j) (r @ [PKey (Key sk)]) = Some v"
        using Cons.prems(1) by (simp add: valAt_append)
      then have "footprintWeight j c = 2 * size v" using c Some by (simp add: NewFootprint_weight)
      then show ?thesis using map_of_size[OF Some] by simp
    qed
  qed
qed

lemma expandIndexes_weight:
  "valAt (rootVal j) r = Some (VArr ref) \<Longrightarrow> expandIndexes ref r sis = Inr cs \<Longrightarrow> c \<in> set cs \<Longrightarrow>
   footprintWeight j c < 2 * size (VArr ref)"
proof (induction sis arbitrary: cs)
  case Nil then show ?case by simp
next
  case (Cons s sis)
  from Cons.prems(2) obtain rest where
    rng: "0 \<le> Index s" "Index s < int (length ref)" and
    rest: "expandIndexes ref r sis = Inr rest" and
    cs: "cs = NewFootprint (ref ! nat (Index s)) (r @ [PIdx (nat (Index s))]) (FromIndex s) # rest"
    by (auto split: if_splits sum.splits)
  show ?case
  proof (cases "c \<in> set rest")
    case True
    then show ?thesis using Cons.IH[OF Cons.prems(1) rest] by simp
  next
    case False
    then have c: "c = NewFootprint (ref ! nat (Index s)) (r @ [PIdx (nat (Index s))]) (FromIndex s)"
      using Cons.prems(3) cs by simp
    have lt: "nat (Index s) < length ref" using rng by simp
    then have "valAt (rootVal j) (r @ [PIdx (nat (Index s))]) = Some (ref ! nat (Index s))"
      using Cons.prems(1) by (simp add: valAt_append)
    then have "footprintWeight j c = 2 * size (ref ! nat (Index s))"
      using c by (simp add: NewFootprint_weight)
    then show ?thesis using nth_size[OF lt] by simp
  qed
qed

lemma children_weight:
  assumes "SelectAll j fp = Inr fp'" "Expand j fp' = Inr cs" "c \<in> set cs"
  shows "footprintWeight j c < footprintWeight j fp"
proof (cases fp)
  case (MapFootprint l r sks v)
  with assms(1) obtain ref where h: "valAt (rootVal j) r = Some (VMap ref)"
    and fp': "fp' = MapFootprint l r (selectAllKeys ref) v"
    by (auto split: option.splits val.splits)
  show ?thesis
  proof (cases l)
    case True
    then show ?thesis using assms(2,3) fp' MapFootprint h by (auto simp: footprintWeight_def)
  next
    case False
    then have "cs = [] \<or> cs = expandKeys ref r (selectAllKeys ref)"
      using assms(2) fp' h by (auto split: if_splits)
    then show ?thesis using assms(3) expandKeys_weight[OF h] MapFootprint h False
      by (auto simp: footprintWeight_def)
  qed
next
  case (ArrayFootprint l r sis vi)
  with assms(1) obtain ref where h: "valAt (rootVal j) r = Some (VArr ref)"
    and fp': "fp' = ArrayFootprint l r (selectAllIndexes (length ref)) vi"
    by (auto split: option.splits val.splits)
  show ?thesis
  proof (cases l)
    case True
    then show ?thesis using assms(2,3) fp' ArrayFootprint h by (auto simp: footprintWeight_def)
  next
    case False
    then have "cs = [] \<or> expandIndexes ref r (selectAllIndexes (length ref)) = Inr cs"
      using assms(2) fp' h by (auto split: if_splits)
    then show ?thesis using assms(3) expandIndexes_weight[OF h] ArrayFootprint h False
      by (auto simp: footprintWeight_def)
  qed
next
  case (NonRefFootprint l x)
  then show ?thesis using assms(1) by simp
qed

fun childrenWeight :: "Jsonpath \<Rightarrow> Footprint list \<Rightarrow> nat" where
  "childrenWeight j [] = 0"
| "childrenWeight j (c # cs) = max (Suc (footprintWeight j c)) (childrenWeight j cs)"

lemma childrenWeight_le:
  "(\<And>c. c \<in> set cs \<Longrightarrow> footprintWeight j c < b) \<Longrightarrow> childrenWeight j cs \<le> b"
  by (induction cs) (auto simp: Suc_le_eq)

function recursivelyCollectFootprint :: "Jsonpath \<Rightarrow> Footprint \<Rightarrow> Footprint list \<Rightarrow> error + Footprint list"
  and collectChildren :: "Jsonpath \<Rightarrow> Footprint list \<Rightarrow> Footprint list \<Rightarrow> error + Footprint list" where
  "recursivelyCollectFootprint j footprint result =
     (case SelectAll j footprint of
        Inl (Err e) \<Rightarrow> Inr (result @ [LeaveItAsItIs footprint])
      | Inl e \<Rightarrow> Inl e
      | Inr selected \<Rightarrow>
          (case Expand j selected of
             Inl (Err e) \<Rightarrow> Inr (result @ [LeaveItAsItIs footprint])
           | Inl e \<Rightarrow> Inl e
           | Inr children \<Rightarrow> collectChildren j children (result @ [LeaveItAsItIs footprint])))"
| "collectChildren j [] result = Inr result"
| "collectChildren j (child # children) result =
     (case recursivelyCollectFootprint j child result of
        Inl e \<Rightarrow> Inl e
      | Inr result' \<Rightarrow> collectChildren j children result')"
  by pat_completeness auto
termination
proof (relation "measures
    [\<lambda>x. case x of
            Inl (j, fp, r) \<Rightarrow> 2 * footprintWeight j fp + 1
          | Inr (j, cs, r) \<Rightarrow> 2 * childrenWeight j cs,
     \<lambda>x. case x of Inl (j, fp, r) \<Rightarrow> 0 | Inr (j, cs, r) \<Rightarrow> length cs]", goal_cases)
  case 1
  then show ?case by simp
next
  case (2 j footprint result selected children)
  have "childrenWeight j children \<le> footprintWeight j footprint"
    using children_weight[OF 2(1) 2(2)] by (rule childrenWeight_le)
  then show ?case by simp
next
  case (3 j child children result)
  then show ?case by (simp add: max_def)
next
  case (4 j child children result result')
  then show ?case by (simp add: max_def)
qed

definition evalRecursive :: "Jsonpath \<Rightarrow> Footprint list \<Rightarrow> res" where
  "evalRecursive j footprints =
     (case expandFootprints j footprints False of
        Inl e \<Rightarrow> (Inl e, j)
      | Inr fps \<Rightarrow> (collectChildren j fps [], j))"

section \<open>The walk over the syntax tree (handlers.go, jsonpath.go)\<close>

text \<open>
  The comparison functions \<^verbatim>\<open>template.Less\<close>, \<^verbatim>\<open>template.Greater\<close>, ... come from a package
  that is not among the sources; the evaluator takes them as a parameter.
\<close>

record Template =
  Less :: "val \<Rightarrow> val \<Rightarrow> error + bool"
  Greater :: "val \<Rightarrow> val \<Rightarrow> error + bool"
  Equal :: "val \<Rightarrow> val \<Rightarrow> error + bool"
  NotEqual :: "val \<Rightarrow> val \<Rightarrow> error + bool"
  LessEqual :: "val \<Rightarrow> val \<Rightarrow> error + bool"
  GreaterEqual :: "val \<Rightarrow> val \<Rightarrow> error + bool"

definition genericCompare :: "Template \<Rightarrow> string \<Rightarrow> val \<Rightarrow> val \<Rightarrow> error + bool" where
  "genericCompare t operator left right =
     (if operator = ''<'' then Less t left right
      else if operator = ''>'' then Greater t left right
      else if operator = ''=='' then Equal t left right
      else if operator = ''!='' then NotEqual t left right
      else if operator = ''<='' then LessEqual t left right
      else if operator = ''>='' then GreaterEqual t left right
      else Inl (Err (''unrecognized filter operator '' @ operator)))"

fun errorText :: "error \<Rightarrow> string" where
  "errorText (Err e) = e"
| "errorText Panic = ''panic''"
| "errorText Diverged = ''''"

function (sequential)
  walk :: "Template \<Rightarrow> Jsonpath \<Rightarrow> Footprint list \<Rightarrow> node \<Rightarrow> res" and
  evalList :: "Template \<Rightarrow> Jsonpath \<Rightarrow> Footprint list \<Rightarrow> node list \<Rightarrow> res" and
  evalUnion :: "Template \<Rightarrow> Jsonpath \<Rightarrow> Footprint list \<Rightarrow> node list list \<Rightarrow> Footprint list \<Rightarrow> res" and
  evalFilter :: "Template \<Rightarrow> Jsonpath \<Rightarrow> Footprint list \<Rightarrow> node list \<Rightarrow> node list \<Rightarrow> string \<Rightarrow> res" and
  filterLoop :: "Template \<Rightarrow> Jsonpath \<Rightarrow> node list \<Rightarrow> node list \<Rightarrow> string \<Rightarrow> Footprint list \<Rightarrow> Footprint list \<Rightarrow> res" and
  filterElements :: "Template \<Rightarrow> Jsonpath \<Rightarrow> node list \<Rightarrow> node list \<Rightarrow> string \<Rightarrow> Footprint list \<Rightarrow> Footprint list \<Rightarrow> res"
where
  "walk t j footprints (ListNode ns) = evalList t j footprints ns"
| "walk t j footprints (FieldNode v) = evalField j footprints v"
| "walk t j footprints (ArrayNode params) = evalArray j footprints params"
| "walk t j footprints (IntNode v) = evalInt j footprints v"
| "walk t j footprints (BoolNode v) = evalBool j footprints v"
| "walk t j footprints (FloatNode v) = evalFloat j footprints v"
| "walk t j footprints WildcardNode = evalWildcard j footprints"
| "walk t j footprints RecursiveNode = evalRecursive j footprints"
| "walk t j footprints (UnionNode ns) = evalUnion t j footprints ns []"
| "walk t j footprints (FilterNode left right operator) = evalFilter t j footprints left right operator"
| "walk t j footprints (ArrayElementNode nd) = evalArrayElement j footprints nd"
| "walk t j footprints _ = (Inl (Err ''unexpected Node''), j)"
| "evalList t j footprints [] = (Inr footprints, j)"
| "evalList t j footprints (n # ns) =
     (case walk t j footprints n of
        (Inl e, j') \<Rightarrow> (Inl e, j')
      | (Inr footprints', j') \<Rightarrow> evalList t j' footprints' ns)"
| "evalUnion t j footprints [] result = (Inr result, j)"
| "evalUnion t j footprints (n # ns) result =
     (case evalList t j footprints n of
        (Inl e, j') \<Rightarrow> (Inl e, j')
      | (Inr list, j') \<Rightarrow> evalUnion t j' footprints ns (result @ list))"
| "evalFilter t j footprints left right operator =
     (case expandFootprints j footprints False of
        Inl e \<Rightarrow> (Inl e, j)
      | Inr fps \<Rightarrow> filterLoop t j left right operator fps [])"
| "filterLoop t j left right operator [] result = (Inr result, j)"
| "filterLoop t j left right operator (fp # fps) result =
     (case SelectAll j fp of
        Inl (Err e) \<Rightarrow> filterLoop t j left right operator fps result
      | Inl e \<Rightarrow> (Inl e, j)
      | Inr allSelectedFp \<Rightarrow>
          (case Expand j allSelectedFp of
             Inl (Err e) \<Rightarrow> filterLoop t j left right operator fps result
           | Inl e \<Rightarrow> (Inl e, j)
           | Inr elements \<Rightarrow>
               (case filterElements t j left right operator elements result of
                  (Inl e, j') \<Rightarrow> (Inl e, j')
                | (Inr result', j') \<Rightarrow> filterLoop t j' left right operator fps result')))"
| "filterElements t j left right operator [] result = (Inr result, j)"
| "filterElements t j left right operator (el # elements) result =
     (let element = LeaveItAsItIs el
      in case evalList t j [element] left of
           (Inl (Err e), j1) \<Rightarrow>
             if operator = ''exists'' then filterElements t j1 left right operator elements result
             else (Inl (Err e), j1)
         | (Inl e, j1) \<Rightarrow> (Inl e, j1)
         | (Inr lefts, j1) \<Rightarrow>
             if operator = ''exists''
             then filterElements t j1 left right operator elements
                    (if length lefts > 0 then result @ [element] else result)
             else
               (case expandFootprints j1 lefts True of
                  Inl e \<Rightarrow> (Inl e, j1)
                | Inr [] \<Rightarrow> filterElements t j1 left right operator elements result
                | Inr [l] \<Rightarrow>
                    (case HolderPtr j1 l of
                       None \<Rightarrow> (Inl Panic, j1)
                     | Some leftv \<Rightarrow>
                        (case evalList t j1 [element] right of
                           (Inl e, j2) \<Rightarrow> (Inl e, j2)
                         | (Inr rights, j2) \<Rightarrow>
                             (case expandFootprints j2 rights True of
                                Inl e \<Rightarrow> (Inl e, j2)
                              | Inr [] \<Rightarrow> filterElements t j2 left right operator elements result
                              | Inr [r] \<Rightarrow>
                                  (case HolderPtr j2 r of
                                     None \<Rightarrow> (Inl Panic, j2)
                                   | Some rightv \<Rightarrow>
                                       (case genericCompare t operator leftv rightv of
                                          Inl e \<Rightarrow>
                                            filterElements t (AddWarning (errorText e) j2)
                                              left right operator elements result
                                        | Inr pass \<Rightarrow>
                                            filterElements t j2 left right operator elements
                                              (if pass then result @ [element] else result)))
                              | Inr _ \<Rightarrow> (Inl (Err ''can only compare one element at a time''), j2))))
                | Inr _ \<Rightarrow> (Inl (Err ''can only compare one element at a time''), j1)))"
  by pat_completeness auto
termination
  by (relation "measures
    [\<lambda>x. case x of
            Inl (Inl (t, j, fps, n)) \<Rightarrow> 10 * size n
          | Inl (Inr (Inl (t, j, fps, ns))) \<Rightarrow> 10 * size_list size ns + 1
          | Inl (Inr (Inr (t, j, fps, nss, res))) \<Rightarrow> 10 * size_list (size_list size) nss + 2
          | Inr (Inl (t, j, fps, l, r, operator)) \<Rightarrow> 10 * (size_list size l + size_list size r) + 8
          | Inr (Inr (Inl (t, j, l, r, operator, fps, res))) \<Rightarrow>
              10 * (size_list size l + size_list size r) + 7
          | Inr (Inr (Inr (t, j, l, r, operator, els, res))) \<Rightarrow>
              10 * (size_list size l + size_list size r) + 6,
     \<lambda>x. case x of
            Inr (Inr (Inl (t, j, l, r, operator, fps, res))) \<Rightarrow> length fps
          | Inr (Inr (Inr (t, j, l, r, operator, els, res))) \<Rightarrow> length els
          | _ \<Rightarrow> 0]") auto

section \<open>Get and Set (jsonpath.go)\<close>

definition FindResult :: "Template \<Rightarrow> Jsonpath \<Rightarrow> res" where
  "FindResult t j =
     (case parser j of
        None \<Rightarrow> (Inl (Err (name j @ '' is an incomplete jsonpath expr'')), j)
      | Some root \<Rightarrow>
          (case SelectAll j (NewFootprint (rootVal j) [] NoInfo) of
             Inl e \<Rightarrow> (Inl e, j)
           | Inr selected \<Rightarrow>
               (case root of
                  ListNode ns # _ \<Rightarrow>
                    if ns = [] then (Inl (Err ''cannot handle empty expression''), j)
                    else evalList t j [selected] ns
                | _ \<Rightarrow> (Inl Panic, j))))"

fun derefAll :: "Jsonpath \<Rightarrow> Footprint list \<Rightarrow> error + val list" where
  "derefAll j [] = Inr []"
| "derefAll j (footprint # fps) =
     (case HolderPtr j footprint of
        None \<Rightarrow> Inl Panic
      | Some v \<Rightarrow> (case derefAll j fps of Inl e \<Rightarrow> Inl e | Inr vs \<Rightarrow> Inr (v # vs)))"

text \<open>\<^verbatim>\<open>Get\<close> returns the pointers of the holders; the model returns what they point at.\<close>

definition Get :: "Template \<Rightarrow> Jsonpath \<Rightarrow> (error + val list) \<times> Jsonpath" where
  "Get t j =
     (case FindResult t (j\<lparr>writeMode := False\<rparr>) of
        (Inl e, j') \<Rightarrow> (Inl e, j')
      | (Inr footprints, j') \<Rightarrow>
          (case expandFootprints j' footprints True of
             Inl e \<Rightarrow> (Inl e, j')
           | Inr fps \<Rightarrow> (derefAll j' fps, j')))"




section \<open>The parser\<close>

text \<open>
  The parser reads the expression rune by rune. The model reads a \<open>string\<close> character by
  character: it covers expressions written in ASCII, where a rune is one byte. \<^verbatim>\<open>eof\<close>, the
  rune \<open>-1\<close>, is \<open>None\<close>. The method \<^verbatim>\<open>next\<close> is \<open>nextRune\<close> here. The tree under construction
  (\<^verbatim>\<open>p.Root\<close> and the list \<^verbatim>\<open>cur\<close>) is not a field of the record: the parsing functions below
  take it and return it.
\<close>

record Parser =
  Name :: string
  input :: string
  pos :: nat
  start :: nat
  width :: nat

definition NewParser :: "string \<Rightarrow> Parser" where
  "NewParser nm = \<lparr>Name = nm, input = [], pos = 0, start = 0, width = 0\<rparr>"

definition leftDelim :: string where "leftDelim = ''{''"
definition rightDelim :: string where "rightDelim = ''}''"

definition consumeText :: "Parser \<Rightarrow> string \<times> Parser" where
  "consumeText p = (take (pos p - start p) (drop (start p) (input p)), p\<lparr>start := pos p\<rparr>)"

definition nextRune :: "Parser \<Rightarrow> char option \<times> Parser" where
  "nextRune p =
     (if pos p \<ge> length (input p) then (None, p\<lparr>width := 0\<rparr>)
      else (Some (input p ! pos p), p\<lparr>width := 1, pos := pos p + 1\<rparr>))"

definition backup :: "Parser \<Rightarrow> Parser" where
  "backup p = p\<lparr>pos := pos p - width p\<rparr>"

definition peek :: "Parser \<Rightarrow> char option \<times> Parser" where
  "peek p = (case nextRune p of (r, p') \<Rightarrow> (r, backup p'))"

definition hasPrefix :: "Parser \<Rightarrow> string \<Rightarrow> bool" where
  "hasPrefix p s \<longleftrightarrow> take (length s) (drop (pos p) (input p)) = s"

definition isSpace :: "char \<Rightarrow> bool" where
  "isSpace r \<longleftrightarrow> r = CHR '' '' \<or> r = CHR 0x09"

definition isEndOfLine :: "char \<Rightarrow> bool" where
  "isEndOfLine r \<longleftrightarrow> r = CHR 0x0D \<or> r = CHR 0x0A"

definition isTerminator :: "char option \<Rightarrow> bool" where
  "isTerminator r =
     (case r of
        None \<Rightarrow> True
      | Some c \<Rightarrow> isSpace c \<or> isEndOfLine c \<or> c \<in> set ''.,[]${}@'')"

definition isDigit :: "char \<Rightarrow> bool" where
  "isDigit r \<longleftrightarrow> 48 \<le> (of_char r :: nat) \<and> (of_char r :: nat) \<le> 57"

definition isLetter :: "char \<Rightarrow> bool" where
  "isLetter r \<longleftrightarrow> (97 \<le> (of_char r :: nat) \<and> (of_char r :: nat) \<le> 122)
                \<or> (65 \<le> (of_char r :: nat) \<and> (of_char r :: nat) \<le> 90)"

definition isAlphaNumeric :: "char \<Rightarrow> bool" where
  "isAlphaNumeric r \<longleftrightarrow> r = CHR ''_'' \<or> isLetter r \<or> isDigit r"

definition isBool :: "string \<Rightarrow> bool" where
  "isBool s \<longleftrightarrow> s = ''true'' \<or> s = ''false''"

section \<open>Library functions\<close>

text \<open>
  Functions of Go's standard library that the parser calls, after their documentation and
  for ASCII texts: \<^verbatim>\<open>strconv.Atoi\<close> (an optional sign and decimal digits, within 64 bits),
  \<^verbatim>\<open>strconv.ParseFloat\<close> on the texts \<^verbatim>\<open>parseNumber\<close> can pass (a sign, digits and dots; the
  value must round to a finite float64), \<^verbatim>\<open>strconv.UnquoteChar\<close>, \<^verbatim>\<open>utf8.EncodeRune\<close>,
  \<^verbatim>\<open>strings.TrimSpace\<close>, \<^verbatim>\<open>strings.Trim\<close>, and the three regular expressions.
\<close>

definition digitVal :: "char \<Rightarrow> int" where
  "digitVal c = of_char c - 48"

definition digitsVal :: "string \<Rightarrow> int" where
  "digitsVal ds = foldl (\<lambda>n c. 10 * n + digitVal c) 0 ds"

definition Atoi :: "string \<Rightarrow> int option" where
  "Atoi s =
     (let neg = (s \<noteq> [] \<and> hd s = CHR ''-'');
          ds = (if s \<noteq> [] \<and> (hd s = CHR ''-'' \<or> hd s = CHR ''+'') then tl s else s);
          v = (if neg then - digitsVal ds else digitsVal ds)
      in if ds = [] \<or> \<not> list_all isDigit ds \<or> \<not> isInt64 v then None else Some v)"

definition ParseFloat :: "string \<Rightarrow> float64 option" where
  "ParseFloat s =
     (let ds = (if s \<noteq> [] \<and> (hd s = CHR ''-'' \<or> hd s = CHR ''+'') then tl s else s);
          ip = takeWhile isDigit ds;
          rest = dropWhile isDigit ds;
          fp = (if rest \<noteq> [] \<and> hd rest = CHR ''.'' then tl rest else rest)
      in if \<not> list_all isDigit fp \<or> (ip = [] \<and> fp = []) then None
         else if digitsVal (ip @ fp) \<ge> (2 ^ 1024 - 2 ^ 970) * 10 ^ length fp then None
         else Some s)"

definition hexVal :: "char \<Rightarrow> nat option" where
  "hexVal c =
     (let n = (of_char c :: nat)
      in if 48 \<le> n \<and> n \<le> 57 then Some (n - 48)
         else if 97 \<le> n \<and> n \<le> 102 then Some (n - 87)
         else if 65 \<le> n \<and> n \<le> 70 then Some (n - 55)
         else None)"

fun hexDigits :: "string \<Rightarrow> nat \<Rightarrow> nat option" where
  "hexDigits [] acc = Some acc"
| "hexDigits (c # cs) acc = (case hexVal c of None \<Rightarrow> None | Some v \<Rightarrow> hexDigits cs (16 * acc + v))"

definition encodeRune :: "nat \<Rightarrow> string" where
  "encodeRune v =
     (if v < 0x80 then [char_of v]
      else if v < 0x800 then [char_of (0xC0 + v div 64), char_of (0x80 + v mod 64)]
      else if v < 0x10000
        then [char_of (0xE0 + v div 4096), char_of (0x80 + (v div 64) mod 64), char_of (0x80 + v mod 64)]
      else [char_of (0xF0 + v div 262144), char_of (0x80 + (v div 4096) mod 64),
            char_of (0x80 + (v div 64) mod 64), char_of (0x80 + v mod 64)])"

definition ValidRune :: "nat \<Rightarrow> bool" where
  "ValidRune v \<longleftrightarrow> v < 0xD800 \<or> (0xDFFF < v \<and> v \<le> 0x10FFFF)"

definition isOctal :: "char \<Rightarrow> bool" where
  "isOctal c \<longleftrightarrow> 48 \<le> (of_char c :: nat) \<and> (of_char c :: nat) \<le> 55"

definition UnquoteChar :: "string \<Rightarrow> char \<Rightarrow> (string \<times> string) option" where
  "UnquoteChar s quote =
     (case s of
        [] \<Rightarrow> None
      | c # s1 \<Rightarrow>
          if c = quote \<and> (quote = CHR 0x27 \<or> quote = CHR 0x22) then None
          else if c \<noteq> CHR 0x5C then Some ([c], s1)
          else (case s1 of
                  [] \<Rightarrow> None
                | e # s2 \<Rightarrow>
                    if e = CHR ''a'' then Some ([CHR 0x07], s2)
                    else if e = CHR ''b'' then Some ([CHR 0x08], s2)
                    else if e = CHR ''f'' then Some ([CHR 0x0C], s2)
                    else if e = CHR ''n'' then Some ([CHR 0x0A], s2)
                    else if e = CHR ''r'' then Some ([CHR 0x0D], s2)
                    else if e = CHR ''t'' then Some ([CHR 0x09], s2)
                    else if e = CHR ''v'' then Some ([CHR 0x0B], s2)
                    else if e = CHR ''x'' \<or> e = CHR ''u'' \<or> e = CHR ''U'' then
                      (let n = (if e = CHR ''x'' then 2 else if e = CHR ''u'' then 4 else 8)
                       in if length s2 < n then None
                          else (case hexDigits (take n s2) 0 of
                                  None \<Rightarrow> None
                                | Some v \<Rightarrow>
                                    if e = CHR ''x'' then Some ([char_of v], drop n s2)
                                    else if \<not> ValidRune v then None
                                    else Some (encodeRune v, drop n s2)))
                    else if isOctal e then
                      (if length s2 < 2 \<or> \<not> isOctal (s2 ! 0) \<or> \<not> isOctal (s2 ! 1) then None
                       else (let v = 64 * digitVal e + 8 * digitVal (s2 ! 0) + digitVal (s2 ! 1)
                             in if v > 255 then None else Some ([char_of (nat v)], drop 2 s2)))
                    else if e = CHR 0x5C then Some ([CHR 0x5C], s2)
                    else if e = CHR 0x27 \<or> e = CHR 0x22 then
                      (if e \<noteq> quote then None else Some ([e], s2))
                    else None))"

lemma UnquoteChar_shorter: "UnquoteChar s q = Some (out, rest) \<Longrightarrow> length rest < length s"
  by (auto simp: UnquoteChar_def Let_def split: list.splits if_splits option.splits)

function unquoteLoop :: "string \<Rightarrow> char \<Rightarrow> string \<Rightarrow> string option" where
  "unquoteLoop s quote buf =
     (if length s > 0
      then (case UnquoteChar s quote of
              None \<Rightarrow> None
            | Some (out, ss) \<Rightarrow> unquoteLoop ss quote (buf @ out))
      else Some buf)"
  by pat_completeness auto
termination
  by (relation "measure (\<lambda>(s, q, b). length s)") (auto simp: UnquoteChar_shorter)

declare unquoteLoop.simps [simp del]

definition UnquoteExtend :: "string \<Rightarrow> string option" where
  "UnquoteExtend s =
     (let n = length s
      in if n < 2 then None
         else let quote = s ! 0
              in if quote \<noteq> s ! (n - 1) then None
                 else let s' = take (n - 2) (drop 1 s)
                      in if quote \<noteq> CHR 0x22 \<and> quote \<noteq> CHR 0x27 then None
                         else if CHR 0x5C \<notin> set s' \<and> quote \<notin> set s' then Some s'
                         else unquoteLoop s' quote [])"

definition TrimSpace :: "string \<Rightarrow> string" where
  "TrimSpace s =
     (let ws = (\<lambda>c. c \<in> set [CHR 0x09, CHR 0x0A, CHR 0x0B, CHR 0x0C, CHR 0x0D, CHR '' ''])
      in rev (dropWhile ws (rev (dropWhile ws s))))"

definition Trim :: "string \<Rightarrow> char \<Rightarrow> string" where
  "Trim s ch = rev (dropWhile (\<lambda>c. c = ch) (rev (dropWhile (\<lambda>c. c = ch) s)))"

definition isQuote :: "char \<Rightarrow> bool" where
  "isQuote c \<longleftrightarrow> c = CHR 0x27 \<or> c = CHR 0x22"

text \<open>\<^verbatim>\<open>dictKeyRex\<close>, the regular expression \<^verbatim>\<open>^['"](.*)['"]$\<close>: the captured group, if the text matches.\<close>

definition dictKeyRex :: "string \<Rightarrow> string option" where
  "dictKeyRex text =
     (if 2 \<le> length text \<and> isQuote (hd text) \<and> isQuote (last text)
         \<and> CHR 0x0A \<notin> set (butlast (tl text))
      then Some (butlast (tl text)) else None)"

text \<open>
  \<^verbatim>\<open>sliceOperatorRex\<close>, the regular expression \<^verbatim>\<open>^(-?[\d]*)(:-?[\d]*)?(:-?[\d]*)?$\<close>: the three
  groups, an absent group being the empty string.
\<close>

definition signedDigits :: "string \<Rightarrow> string \<times> string" where
  "signedDigits s =
     (let sign = (if s \<noteq> [] \<and> hd s = CHR ''-'' then [CHR ''-''] else []);
          r = drop (length sign) s
      in (sign @ takeWhile isDigit r, dropWhile isDigit r))"

definition colonGroup :: "string \<Rightarrow> string \<times> string" where
  "colonGroup s =
     (if s \<noteq> [] \<and> hd s = CHR '':''
      then (case signedDigits (tl s) of (g, r) \<Rightarrow> (CHR '':'' # g, r))
      else ([], s))"

definition sliceOperatorRex :: "string \<Rightarrow> (string \<times> string \<times> string) option" where
  "sliceOperatorRex text =
     (case signedDigits text of
        (g1, r1) \<Rightarrow>
          (case colonGroup r1 of
             (g2, r2) \<Rightarrow>
               (case colonGroup r2 of
                  (g3, r3) \<Rightarrow> if r3 = [] then Some (g1, g2, g3) else None)))"

text \<open>
  The regular expression \<^verbatim>\<open>^([^!<>=]+)([!<>=]+)(.+?)$\<close> of \<^verbatim>\<open>parseFilter\<close>. The first group is
  the longest run without an operator character, the second the run of operator
  characters after it, which gives its last character to the third group when nothing
  else is left for it.
\<close>

definition isOpChar :: "char \<Rightarrow> bool" where
  "isOpChar c \<longleftrightarrow> c \<in> set ''!<>=''"

definition filterRex :: "string \<Rightarrow> (string \<times> string \<times> string) option" where
  "filterRex text =
     (let g1 = takeWhile (\<lambda>c. \<not> isOpChar c) text;
          r1 = dropWhile (\<lambda>c. \<not> isOpChar c) text;
          ops = takeWhile isOpChar r1;
          r2 = dropWhile isOpChar r1
      in if g1 = [] \<or> ops = [] \<or> CHR 0x0A \<in> set r2 then None
         else if r2 \<noteq> [] then Some (g1, ops, r2)
         else if 2 \<le> length ops then Some (g1, butlast ops, [last ops])
         else None)"

text \<open>\<^verbatim>\<open>findRune\<close>: the index of the first unescaped \<open>target\<close>, if there is one.\<close>

fun findRuneLoop :: "string \<Rightarrow> char \<Rightarrow> bool \<Rightarrow> nat \<Rightarrow> nat option" where
  "findRuneLoop [] target escapeMode i = None"
| "findRuneLoop (r # rs) target escapeMode i =
     (if r = target \<and> \<not> escapeMode then Some i
      else if r = CHR 0x5C \<and> \<not> escapeMode then findRuneLoop rs target True (i + 1)
      else findRuneLoop rs target False (i + 1))"

definition findRune :: "string \<Rightarrow> char \<Rightarrow> nat option" where
  "findRune rs target = findRuneLoop rs target False 0"

lemma findRuneLoop_bound: "findRuneLoop rs t e i = Some n \<Longrightarrow> i \<le> n \<and> n < i + length rs"
  by (induction rs t e i rule: findRuneLoop.induct) (auto split: if_splits)

lemma findRune_bound: "findRune rs t = Some n \<Longrightarrow> n < length rs"
  using findRuneLoop_bound[of rs t False 0 n] by (simp add: findRune_def)

text \<open>\<^verbatim>\<open>splitByComma\<close>; \<open>None\<close> is the nil slice it returns for an unclosed quote.\<close>

function splitLoop :: "string \<Rightarrow> nat \<Rightarrow> nat \<Rightarrow> string list \<Rightarrow> string list option" where
  "splitLoop rs i base result =
     (if i < length rs
      then (if rs ! i = CHR '','' then splitLoop rs (i + 1) (i + 1) (result @ [take (i - base) (drop base rs)])
            else if isQuote (rs ! i)
            then (case findRune (drop (i + 1) rs) (rs ! i) of
                    None \<Rightarrow> None
                  | Some nxt \<Rightarrow> splitLoop rs (i + (nxt + 1) + 1) base result)
            else splitLoop rs (i + 1) base result)
      else Some (result @ [drop base rs]))"
  by pat_completeness auto
termination
  by (relation "measure (\<lambda>(rs, i, base, result). length rs - i)") auto

declare splitLoop.simps [simp del]

definition splitByComma :: "string \<Rightarrow> string list" where
  "splitByComma str = (case splitLoop str 0 0 [] of None \<Rightarrow> [] | Some result \<Rightarrow> result)"

section \<open>Scanning loops\<close>

text \<open>
  The \<^verbatim>\<open>for\<close> loops of \<^verbatim>\<open>parseIdentifier\<close>, \<^verbatim>\<open>parseNumber\<close>, \<^verbatim>\<open>findNextRune\<close>, \<^verbatim>\<open>parseArray\<close>,
  \<^verbatim>\<open>parseFilter\<close>, \<^verbatim>\<open>parseQuote\<close> and \<^verbatim>\<open>parseField\<close>, each as a recursion on the parser state.
  Every round of a loop reads a rune, and the loop ends at \<^verbatim>\<open>eof\<close> at the latest.
\<close>

function scanIdentifier :: "Parser \<Rightarrow> Parser" where
  "scanIdentifier p =
     (case nextRune p of (r, p') \<Rightarrow> if isTerminator r then backup p' else scanIdentifier p')"
  by pat_completeness auto
termination
  by (relation "measure (\<lambda>p. length (input p) - pos p)")
     (auto simp: nextRune_def isTerminator_def split: if_splits)

declare scanIdentifier.simps [simp del]

function numberLoop :: "Parser \<Rightarrow> Parser" where
  "numberLoop p =
     (case nextRune p of
        (r, p') \<Rightarrow>
          if r \<noteq> Some CHR ''.'' \<and> \<not> (case r of Some c \<Rightarrow> isDigit c | None \<Rightarrow> False)
          then backup p' else numberLoop p')"
  by pat_completeness auto
termination
  by (relation "measure (\<lambda>p. length (input p) - pos p)")
     (auto simp: nextRune_def split: if_splits)

declare numberLoop.simps [simp del]

definition scanNumber :: "Parser \<Rightarrow> Parser" where
  "scanNumber p =
     (case peek p of
        (r, p') \<Rightarrow>
          numberLoop (if r = Some CHR ''+'' \<or> r = Some CHR ''-'' then snd (nextRune p') else p'))"

function findNextRune :: "Parser \<Rightarrow> char \<Rightarrow> bool \<Rightarrow> error + Parser" where
  "findNextRune p r escapeMode =
     (case nextRune p of
        (c, p') \<Rightarrow>
          if c = Some r \<and> \<not> escapeMode then Inr p'
          else if c = Some CHR 0x5C \<and> \<not> escapeMode then findNextRune p' r True
          else if c = None then Inl (Err (''cannot find the next '' @ [r]))
          else findNextRune p' r False)"
  by pat_completeness auto
termination
  by (relation "measure (\<lambda>(p, r, e). length (input p) - pos p)")
     (auto simp: nextRune_def split: if_splits)

declare findNextRune.simps [simp del]

definition ahead :: "Parser \<Rightarrow> Parser \<Rightarrow> bool" where
  "ahead p p' \<longleftrightarrow> input p' = input p \<and> pos p \<le> pos p'"

lemma ahead_refl [simp]: "ahead p p"
  by (simp add: ahead_def)

lemma ahead_trans: "ahead p q \<Longrightarrow> ahead q r \<Longrightarrow> ahead p r"
  by (simp add: ahead_def)

lemma ahead_nextRune: "nextRune p = (r, p') \<Longrightarrow> ahead p p'"
  by (auto simp: nextRune_def ahead_def split: if_splits)

lemma nextRune_Some: "nextRune p = (Some c, p') \<Longrightarrow>
    pos p < length (input p) \<and> pos p' = pos p + 1 \<and> input p' = input p \<and> c = input p ! pos p
    \<and> width p' = 1 \<and> start p' = start p"
  by (auto simp: nextRune_def split: if_splits)

lemma nextRune_None: "nextRune p = (None, p') \<Longrightarrow>
    length (input p) \<le> pos p \<and> pos p' = pos p \<and> input p' = input p \<and> width p' = 0
    \<and> start p' = start p"
  by (auto simp: nextRune_def split: if_splits)

lemma backup_nextRune: "nextRune p = (r, p') \<Longrightarrow>
    pos (backup p') = pos p \<and> input (backup p') = input p \<and> start (backup p') = start p"
  by (auto simp: nextRune_def backup_def split: if_splits)

lemma ahead_scanIdentifier: "ahead p (scanIdentifier p)"
proof (induction p rule: scanIdentifier.induct)
  case (1 p)
  obtain r p' where n: "nextRune p = (r, p')" by force
  show ?case
  proof (cases "isTerminator r")
    case True
    then show ?thesis
      using n backup_nextRune[OF n] by (subst scanIdentifier.simps) (simp add: ahead_def)
  next
    case False
    then show ?thesis
      using n 1[OF n[symmetric] False] ahead_nextRune[OF n]
      by (subst scanIdentifier.simps) (auto intro: ahead_trans)
  qed
qed

lemma ahead_numberLoop: "ahead p (numberLoop p)"
proof (induction p rule: numberLoop.induct)
  case (1 p)
  obtain r p' where n: "nextRune p = (r, p')" by force
  show ?case
  proof (cases "r \<noteq> Some CHR ''.'' \<and> \<not> (case r of Some c \<Rightarrow> isDigit c | None \<Rightarrow> False)")
    case True
    then show ?thesis
      using n backup_nextRune[OF n] by (subst numberLoop.simps) (simp add: ahead_def)
  next
    case False
    then show ?thesis
      using n 1[OF n[symmetric] False] ahead_nextRune[OF n]
      by (subst numberLoop.simps) (auto intro: ahead_trans)
  qed
qed

lemma peek_props: "peek p = (r, p') \<Longrightarrow>
    pos p' = pos p \<and> input p' = input p \<and> start p' = start p
    \<and> (r = (if pos p < length (input p) then Some (input p ! pos p) else None))"
  by (auto simp: peek_def nextRune_def backup_def split: if_splits)

lemma ahead_scanNumber: "ahead p (scanNumber p)"
proof -
  obtain r p' where pk: "peek p = (r, p')" by force
  have a: "ahead p p'" using peek_props[OF pk] by (simp add: ahead_def)
  have b: "ahead p' (snd (nextRune p'))" using ahead_nextRune[of p'] by (cases "nextRune p'") auto
  show ?thesis
    using pk a b ahead_numberLoop
    by (auto simp: scanNumber_def intro: ahead_trans)
qed

lemma numberLoop_step:
  "pos p < length (input p) \<Longrightarrow> isDigit (input p ! pos p) \<Longrightarrow> pos p < pos (numberLoop p)"
proof -
  assume a: "pos p < length (input p)" "isDigit (input p ! pos p)"
  obtain r p' where n: "nextRune p = (r, p')" by force
  then have r: "r = Some (input p ! pos p)" "pos p' = pos p + 1"
    using a by (auto simp: nextRune_def)
  have "numberLoop p = numberLoop p'"
    using n r a by (subst numberLoop.simps) simp
  then show ?thesis using ahead_numberLoop[of p'] r by (simp add: ahead_def)
qed

lemma scanNumber_step:
  assumes "pos p < length (input p)"
    and "input p ! pos p = CHR ''+'' \<or> input p ! pos p = CHR ''-'' \<or> isDigit (input p ! pos p)"
  shows "pos p < pos (scanNumber p)"
proof -
  obtain r p' where pk: "peek p = (r, p')" by force
  note pp = peek_props[OF pk]
  show ?thesis
  proof (cases "input p ! pos p = CHR ''+'' \<or> input p ! pos p = CHR ''-''")
    case True
    obtain r2 p2 where n: "nextRune p' = (r2, p2)" by force
    have "pos p2 = pos p + 1" using n pp assms(1) by (auto simp: nextRune_def)
    then show ?thesis
      using pk pp True assms(1) n ahead_numberLoop[of p2]
      by (auto simp: scanNumber_def ahead_def)
  next
    case False
    then have d: "isDigit (input p' ! pos p')" "pos p' < length (input p')"
      using assms pp by auto
    have "r \<noteq> Some CHR ''+'' \<and> r \<noteq> Some CHR ''-''" using pp False assms(1) by auto
    then show ?thesis
      using pk pp numberLoop_step[OF d(2) d(1)] by (simp add: scanNumber_def)
  qed
qed

lemma scanIdentifier_step:
  assumes "pos p < length (input p)" and "\<not> isTerminator (Some (input p ! pos p))"
  shows "pos p < pos (scanIdentifier p)"
proof -
  obtain r p' where n: "nextRune p = (r, p')" by force
  then have r: "r = Some (input p ! pos p)" "pos p' = pos p + 1"
    using assms by (auto simp: nextRune_def)
  have "scanIdentifier p = scanIdentifier p'"
    using n r assms by (subst scanIdentifier.simps) simp
  then show ?thesis using ahead_scanIdentifier[of p'] r by (simp add: ahead_def)
qed

lemma findNextRune_ahead: "findNextRune p r e = Inr p' \<Longrightarrow> input p' = input p \<and> pos p < pos p'"
proof (induction p r e rule: findNextRune.induct)
  case (1 p r e)
  obtain c q where n: "nextRune p = (c, q)" by force
  show ?case
  proof (cases c)
    case None
    then show ?thesis using 1(3) n by (subst (asm) findNextRune.simps) (auto split: if_splits)
  next
    case (Some ch)
    note s = nextRune_Some[OF n[unfolded Some]]
    show ?thesis
    proof (cases "c = Some r \<and> \<not> e")
      case True
      then show ?thesis using 1(3) n s by (subst (asm) findNextRune.simps) auto
    next
      case f1: False
      show ?thesis
      proof (cases "c = Some CHR 0x5C \<and> \<not> e")
        case True
        then have "findNextRune q r True = Inr p'"
          using 1(3) n f1 by (subst (asm) findNextRune.simps) auto
        then show ?thesis using 1(1)[OF n[symmetric] f1 True] s by simp
      next
        case f2: False
        then have "findNextRune q r False = Inr p'"
          using 1(3) n f1 Some by (subst (asm) findNextRune.simps) auto
        moreover have "c \<noteq> None" using Some by simp
        ultimately show ?thesis using 1(2)[OF n[symmetric] f1 f2] s by simp
      qed
    qed
  qed
qed

text \<open>The loop of \<^verbatim>\<open>parseArray\<close> that looks for the closing bracket.\<close>

function scanArray :: "Parser \<Rightarrow> error + Parser" where
  "scanArray p =
     (case nextRune p of
        (None, p') \<Rightarrow> Inl (Err ''unterminated array'')
      | (Some r, p') \<Rightarrow>
          if r = CHR 0x0A then Inl (Err ''unterminated array'')
          else if isQuote r
          then (case findNextRune p' r False of Inl e \<Rightarrow> Inl e | Inr p'' \<Rightarrow> scanArray p'')
          else if r = CHR '']'' then Inr p'
          else scanArray p')"
  by pat_completeness auto
termination
proof (relation "measure (\<lambda>p. length (input p) - pos p)", goal_cases)
  case 1
  then show ?case by simp
next
  case (2 p x1 p' r p'')
  then have n: "nextRune p = (Some r, p')" by simp
  show ?case
    using nextRune_Some[OF n] findNextRune_ahead[OF 2(5)] by (auto intro: diff_less_mono2)
next
  case (3 p x1 p' r)
  then have n: "nextRune p = (Some r, p')" by simp
  show ?case using nextRune_Some[OF n] by (auto intro: diff_less_mono2)
qed

declare scanArray.simps [simp del]

lemma scanArray_ahead: "scanArray p = Inr q \<Longrightarrow> input q = input p \<and> pos p < pos q"
proof (induction p rule: scanArray.induct)
  case (1 p)
  obtain c p' where n: "nextRune p = (c, p')" by force
  show ?case
  proof (cases c)
    case None
    then show ?thesis using 1(3) n by (subst (asm) scanArray.simps) simp
  next
    case (Some r)
    note n' = n[unfolded Some]
    note s = nextRune_Some[OF n']
    have nl: "r \<noteq> CHR 0x0A"
      using 1(3) n' by (subst (asm) scanArray.simps) (auto split: if_splits)
    show ?thesis
    proof (cases "isQuote r")
      case True
      then obtain p'' where f: "findNextRune p' r False = Inr p''" and g: "scanArray p'' = Inr q"
        using 1(3) n' nl by (subst (asm) scanArray.simps) (auto split: sum.splits)
      show ?thesis
        using 1(1)[OF n'[symmetric] refl nl True f g] findNextRune_ahead[OF f] s by simp
    next
      case q: False
      show ?thesis
      proof (cases "r = CHR '']''")
        case True
        then show ?thesis using 1(3) n' nl q s by (subst (asm) scanArray.simps) auto
      next
        case False
        then have g: "scanArray p' = Inr q"
          using 1(3) n' nl q by (subst (asm) scanArray.simps) auto
        show ?thesis using 1(2)[OF n'[symmetric] refl nl q False g] s by simp
      qed
    qed
  qed
qed

text \<open>
  The loop of \<^verbatim>\<open>parseFilter\<close> that looks for the closing parenthesis. \<^verbatim>\<open>p.input[p.pos-2]\<close> is
  the byte before the quote just read; there is none when fewer than two bytes were read.
\<close>

function scanFilter :: "Parser \<Rightarrow> bool \<Rightarrow> bool \<Rightarrow> char \<Rightarrow> error + Parser" where
  "scanFilter p begin end pair =
     (case nextRune p of
        (None, p') \<Rightarrow> Inl (Err ''unterminated filter'')
      | (Some r, p') \<Rightarrow>
          if r = CHR 0x0A then Inl (Err ''unterminated filter'')
          else if isQuote r
          then (if begin = False then scanFilter p' True end r
                else if pos p' < 2 then Inl Panic
                else if input p' ! (pos p' - 2) \<noteq> CHR 0x5C \<and> r = pair
                then scanFilter p' begin True pair
                else scanFilter p' begin end pair)
          else if r = CHR '')''
          then (if begin = end then Inr p' else scanFilter p' begin end pair)
          else scanFilter p' begin end pair)"
  by pat_completeness auto
termination
  by (relation "measure (\<lambda>(p, b, e, c). length (input p) - pos p)")
     (auto simp: nextRune_def split: if_splits)

declare scanFilter.simps [simp del]

lemma scanFilter_ahead: "scanFilter p b e c = Inr q \<Longrightarrow> input q = input p \<and> pos p < pos q"
proof (induction p b e c rule: scanFilter.induct)
  case (1 p b e c)
  obtain x p' where n: "nextRune p = (x, p')" by force
  show ?case
  proof (cases x)
    case None
    then show ?thesis using 1(6) n by (subst (asm) scanFilter.simps) simp
  next
    case (Some r)
    note n' = n[unfolded Some]
    note s = nextRune_Some[OF n']
    note ih = 1(1-5)[OF n'[symmetric] refl]
    show ?thesis
      using 1(6) n' s ih
      by (subst (asm) scanFilter.simps) (auto split: if_splits)
  qed
qed

text \<open>The loop of \<^verbatim>\<open>parseQuote\<close>.\<close>

function scanQuote :: "Parser \<Rightarrow> char \<Rightarrow> error + Parser" where
  "scanQuote p end =
     (case nextRune p of
        (None, p') \<Rightarrow> Inl (Err ''unterminated quoted string'')
      | (Some r, p') \<Rightarrow>
          if r = CHR 0x0A then Inl (Err ''unterminated quoted string'')
          else if r = end
          then (if pos p' < 2 then Inl Panic
                else if input p' ! (pos p' - 2) \<noteq> CHR 0x5C then Inr p'
                else scanQuote p' end)
          else scanQuote p' end)"
  by pat_completeness auto
termination
  by (relation "measure (\<lambda>(p, e). length (input p) - pos p)")
     (auto simp: nextRune_def split: if_splits)

declare scanQuote.simps [simp del]

lemma scanQuote_ahead: "scanQuote p e = Inr q \<Longrightarrow> input q = input p \<and> pos p < pos q"
proof (induction p e rule: scanQuote.induct)
  case (1 p e)
  obtain x p' where n: "nextRune p = (x, p')" by force
  show ?case
  proof (cases x)
    case None
    then show ?thesis using 1(3) n by (subst (asm) scanQuote.simps) simp
  next
    case (Some r)
    note n' = n[unfolded Some]
    note s = nextRune_Some[OF n']
    note ih = 1(1-2)[OF n'[symmetric] refl]
    show ?thesis
      using 1(3) n' s ih
      by (subst (asm) scanQuote.simps) (auto split: if_splits)
  qed
qed

text \<open>\<^verbatim>\<open>advance\<close>, and the loop \<^verbatim>\<open>for p.advance() {}\<close> of \<^verbatim>\<open>parseField\<close>.\<close>

definition advance :: "Parser \<Rightarrow> bool \<times> Parser" where
  "advance p =
     (case nextRune p of
        (r, p') \<Rightarrow>
          if r = Some CHR 0x5C then (True, snd (nextRune p'))
          else if isTerminator r then (False, backup p')
          else (True, p'))"

lemma advance_True: "advance p = (True, q) \<Longrightarrow> input q = input p \<and> pos p < pos q \<and> pos p < length (input p)"
  by (auto simp: advance_def nextRune_def isTerminator_def split: if_splits prod.splits)

lemma advance_False: "advance p = (False, q) \<Longrightarrow> input q = input p \<and> pos q = pos p"
  by (auto simp: advance_def nextRune_def backup_def split: if_splits prod.splits)

function advanceLoop :: "Parser \<Rightarrow> Parser" where
  "advanceLoop p = (case advance p of (True, p') \<Rightarrow> advanceLoop p' | (False, p') \<Rightarrow> p')"
  by pat_completeness auto
termination
proof (relation "measure (\<lambda>p. length (input p) - pos p)", goal_cases)
  case 1
  then show ?case by simp
next
  case (2 p x1 p')
  then have "advance p = (True, p')" by simp
  from advance_True[OF this] show ?case by (auto intro: diff_less_mono2)
qed

declare advanceLoop.simps [simp del]

lemma ahead_advanceLoop: "ahead p (advanceLoop p)"
proof (induction p rule: advanceLoop.induct)
  case (1 p)
  obtain b q where a: "advance p = (b, q)" by force
  show ?case
  proof (cases b)
    case True
    have "ahead q (advanceLoop q)" using 1[of b q] a True by simp
    then show ?thesis
      using a True advance_True[of p q]
      by (subst advanceLoop.simps) (auto simp: ahead_def)
  next
    case False
    then show ?thesis
      using a advance_False[of p q]
      by (subst advanceLoop.simps) (auto simp: ahead_def)
  qed
qed

section \<open>Termination of the parser\<close>

text \<open>
  The weight of a source text: its length plus twice the number of its commas. A text
  that \<^verbatim>\<open>parseAction\<close> is given by \<^verbatim>\<open>parseArray\<close> or \<^verbatim>\<open>parseFilter\<close> weighs less, braces
  and brackets included, than the text it was cut from, which is why the parser
  terminates.
\<close>

definition textWeight :: "string \<Rightarrow> nat" where
  "textWeight s = length s + 2 * count_list s (CHR '','')"

lemma textWeight_append [simp]: "textWeight (a @ b) = textWeight a + textWeight b"
  by (simp add: textWeight_def)

lemma textWeight_Cons: "textWeight (c # s) = (if c = CHR '','' then 3 else 1) + textWeight s"
  by (simp add: textWeight_def)

lemma textWeight_Nil [simp]: "textWeight [] = 0"
  by (simp add: textWeight_def)

lemma textWeight_take: "textWeight (take n s) \<le> textWeight s"
proof -
  have "textWeight (take n s) + textWeight (drop n s) = textWeight s"
    by (metis append_take_drop_id textWeight_append)
  then show ?thesis by simp
qed

lemma textWeight_drop: "textWeight (drop n s) \<le> textWeight s"
proof -
  have "textWeight (take n s) + textWeight (drop n s) = textWeight s"
    by (metis append_take_drop_id textWeight_append)
  then show ?thesis by simp
qed

lemma textWeight_dropWhile: "textWeight (dropWhile P s) \<le> textWeight s"
proof -
  have "textWeight (takeWhile P s) + textWeight (dropWhile P s) = textWeight s"
    by (metis takeWhile_dropWhile_id textWeight_append)
  then show ?thesis by simp
qed

lemma textWeight_takeWhile: "textWeight (takeWhile P s) \<le> textWeight s"
proof -
  have "textWeight (takeWhile P s) + textWeight (dropWhile P s) = textWeight s"
    by (metis takeWhile_dropWhile_id textWeight_append)
  then show ?thesis by simp
qed

lemma textWeight_rev [simp]: "textWeight (rev s) = textWeight s"
  by (simp add: textWeight_def)

lemma textWeight_Trim: "textWeight (Trim s c) \<le> textWeight s"
proof -
  let ?P = "\<lambda>x. x = c"
  have "textWeight (Trim s c) = textWeight (dropWhile ?P (rev (dropWhile ?P s)))"
    by (simp add: Trim_def)
  also have "\<dots> \<le> textWeight (rev (dropWhile ?P s))"
    by (rule textWeight_dropWhile)
  also have "\<dots> = textWeight (dropWhile ?P s)"
    by simp
  also have "\<dots> \<le> textWeight s"
    by (rule textWeight_dropWhile)
  finally show ?thesis .
qed

lemma textWeight_butlast: "textWeight (butlast s) \<le> textWeight s"
  by (simp add: butlast_conv_take textWeight_take)

lemma textWeight_split:
  assumes "i < length rs" "rs ! i = CHR '',''"
  shows "textWeight rs = textWeight (take i rs) + 3 + textWeight (drop (Suc i) rs)"
proof -
  have "textWeight (take i rs @ rs ! i # drop (Suc i) rs)
        = textWeight (take i rs) + 3 + textWeight (drop (Suc i) rs)"
    using assms(2) by (simp add: textWeight_Cons)
  moreover have "take i rs @ rs ! i # drop (Suc i) rs = rs"
    using assms(1) by (rule id_take_nth_drop[symmetric])
  ultimately show ?thesis by simp
qed

lemma textWeight_piece:
  assumes "base \<le> i" "i < length rs" "rs ! i = CHR '',''"
  shows "textWeight (take (i - base) (drop base rs)) + 3 \<le> textWeight rs"
proof -
  have "take (i - base) (drop base rs) = drop base (take i rs)"
    using assms(1) by (simp add: drop_take)
  moreover have "textWeight (drop base (take i rs)) \<le> textWeight (take i rs)"
    by (rule textWeight_drop)
  ultimately show ?thesis using textWeight_split[OF assms(2,3)] by simp
qed

lemma textWeight_tail:
  assumes "0 < base" "base \<le> length rs" "rs ! (base - 1) = CHR '',''"
  shows "textWeight (drop base rs) + 3 \<le> textWeight rs"
proof -
  have lt: "base - 1 < length rs" using assms by simp
  show ?thesis using textWeight_split[OF lt assms(3)] assms(1) by simp
qed

lemma splitLoop_pieces:
  assumes "splitLoop rs i base result = Some out"
    and "base \<le> i" and "base \<le> length rs"
    and "\<forall>s \<in> set result. textWeight s + 3 \<le> textWeight rs"
    and "base = 0 \<longrightarrow> result = []"
    and "0 < base \<longrightarrow> rs ! (base - 1) = CHR '',''"
  shows "out = [rs] \<or> (\<forall>s \<in> set out. textWeight s + 3 \<le> textWeight rs)"
  using assms
proof (induction rs i base result rule: splitLoop.induct)
  case (1 rs i base result)
  show ?case
  proof (cases "i < length rs")
    case False
    then have out: "out = result @ [drop base rs]"
      using 1(4) by (subst (asm) splitLoop.simps) simp
    show ?thesis
    proof (cases "base = 0")
      case True
      then show ?thesis using out 1(8) by simp
    next
      case False
      then have "textWeight (drop base rs) + 3 \<le> textWeight rs"
        using textWeight_tail[of base rs] 1(6) 1(9) by simp
      then show ?thesis using out 1(7) by auto
    qed
  next
    case lt: True
    show ?thesis
    proof (cases "rs ! i = CHR '',''")
      case True
      then have rec: "splitLoop rs (i + 1) (i + 1) (result @ [take (i - base) (drop base rs)]) = Some out"
        using 1(4) lt by (subst (asm) splitLoop.simps) simp
      have pc: "textWeight (take (i - base) (drop base rs)) + 3 \<le> textWeight rs"
        using textWeight_piece[OF 1(5) lt True] .
      show ?thesis
        using 1(1)[OF lt True rec] lt 1(7) pc True by auto
    next
      case nc: False
      show ?thesis
      proof (cases "isQuote (rs ! i)")
        case True
        then obtain nxt where f: "findRune (drop (i + 1) rs) (rs ! i) = Some nxt"
          and rec: "splitLoop rs (i + (nxt + 1) + 1) base result = Some out"
          using 1(4) lt nc by (subst (asm) splitLoop.simps) (auto split: option.splits)
        show ?thesis
          using 1(2)[OF lt nc True f rec] 1(5-9) by simp
      next
        case False
        then have rec: "splitLoop rs (i + 1) base result = Some out"
          using 1(4) lt nc by (subst (asm) splitLoop.simps) simp
        show ?thesis
          using 1(3)[OF lt nc False rec] 1(5-9) by simp
      qed
    qed
  qed
qed

lemma splitByComma_pieces:
  assumes "1 < length (splitByComma text)" and "s \<in> set (splitByComma text)"
  shows "textWeight s + 3 \<le> textWeight text"
proof -
  obtain out where o: "splitLoop text 0 0 [] = Some out" "splitByComma text = out"
    using assms(1) by (auto simp: splitByComma_def split: option.splits)
  have "out = [text] \<or> (\<forall>s \<in> set out. textWeight s + 3 \<le> textWeight text)"
    using splitLoop_pieces[OF o(1)] by simp
  then show ?thesis using assms o(2) by auto
qed

text \<open>The weight of the heaviest text that \<^verbatim>\<open>parseAction\<close> gets from a union.\<close>

fun unionWeight :: "string list \<Rightarrow> nat" where
  "unionWeight [] = 0"
| "unionWeight (str # strs) =
     max (textWeight (leftDelim @ (''['' @ Trim str (CHR '' '') @ '']'') @ rightDelim)) (unionWeight strs)"

lemma unionWeight_le:
  "(\<And>s. s \<in> set strs \<Longrightarrow> textWeight s + 4 \<le> b) \<Longrightarrow> unionWeight strs \<le> b"
proof (induction strs)
  case Nil
  then show ?case by simp
next
  case (Cons a strs)
  have "textWeight (Trim a (CHR '' '')) \<le> textWeight a" by (rule textWeight_Trim)
  moreover have "textWeight a + 4 \<le> b" using Cons.prems by simp
  moreover have "unionWeight strs \<le> b" using Cons by simp
  ultimately show ?case
    by (simp add: leftDelim_def rightDelim_def textWeight_Cons)
qed

lemma consumeText_weight: "textWeight (fst (consumeText p)) \<le> textWeight (input p)"
  unfolding consumeText_def fst_conv
  by (meson le_trans textWeight_drop textWeight_take)

lemma union_weight:
  assumes "consumeText p1 = (text0, p')" and "2 \<le> length text0"
    and "1 < length (splitByComma (take (length text0 - 2) (drop 1 text0)))"
  shows "unionWeight (splitByComma (take (length text0 - 2) (drop 1 text0))) < textWeight (input p1)"
proof -
  let ?text = "take (length text0 - 2) (drop 1 text0)"
  have t0: "textWeight text0 \<le> textWeight (input p1)"
    using consumeText_weight[of p1] assms(1) by simp
  define a where "a = hd text0"
  define rest where "rest = tl text0"
  have c: "text0 = a # rest" "rest \<noteq> []"
    using assms(2) unfolding a_def rest_def by (cases text0; force)+
  have "?text = butlast rest"
    using c by (simp add: butlast_conv_take)
  moreover have "textWeight (butlast rest @ [last rest]) = textWeight (butlast rest) + textWeight [last rest]"
    by (rule textWeight_append)
  then have "textWeight rest = textWeight (butlast rest) + textWeight [last rest]"
    using c(2) by simp
  moreover have "1 \<le> textWeight [last rest]" "1 \<le> textWeight [a]"
    by (simp_all add: textWeight_def)
  moreover have "textWeight text0 = textWeight [a] + textWeight rest"
    using c(1) textWeight_append[of "[a]" rest] by simp
  ultimately have t: "textWeight ?text + 2 \<le> textWeight text0" by simp
  have "unionWeight (splitByComma ?text) \<le> textWeight ?text + 1"
  proof (rule unionWeight_le)
    fix s assume "s \<in> set (splitByComma ?text)"
    from splitByComma_pieces[OF assms(3) this] show "textWeight s + 4 \<le> textWeight ?text + 1"
      by simp
  qed
  then show ?thesis using t t0 by simp
qed

lemma consumeText_snd [simp]:
  "pos (snd (consumeText p)) = pos p" "input (snd (consumeText p)) = input p"
  "start (snd (consumeText p)) = pos p"
  by (simp_all add: consumeText_def)

lemma consumeText_eq: "consumeText p = (v, p') \<Longrightarrow> pos p' = pos p \<and> input p' = input p"
  by (auto simp: consumeText_def)

lemma hasPrefix_length: "hasPrefix p s \<Longrightarrow> s \<noteq> [] \<Longrightarrow> pos p + length s \<le> length (input p)"
proof -
  assume a: "hasPrefix p s" "s \<noteq> []"
  then have "length (take (length s) (drop (pos p) (input p))) = length s"
    by (simp add: hasPrefix_def)
  then show ?thesis using a(2) by (cases s) (auto simp: min_def split: if_splits)
qed

lemma alnum_not_terminator: "isAlphaNumeric r \<Longrightarrow> \<not> isTerminator (Some r)"
  by (auto simp: isAlphaNumeric_def isTerminator_def isLetter_def isDigit_def isSpace_def
        isEndOfLine_def)

lemma number_edge:
  assumes "nextRune p = (Some r, p')" and "r = CHR ''+'' \<or> r = CHR ''-'' \<or> isDigit r"
  shows "pos p < pos (scanNumber (backup p')) \<and> input (scanNumber (backup p')) = input p"
proof -
  note s = nextRune_Some[OF assms(1)]
  note b = backup_nextRune[OF assms(1)]
  have "pos (backup p') < pos (scanNumber (backup p'))"
    using scanNumber_step[of "backup p'"] s b assms(2) by simp
  then show ?thesis using b ahead_scanNumber[of "backup p'"] by (simp add: ahead_def)
qed

lemma identifier_edge:
  assumes "nextRune p = (Some r, p')" and "isAlphaNumeric r"
  shows "pos p < pos (scanIdentifier (backup p')) \<and> input (scanIdentifier (backup p')) = input p"
proof -
  note s = nextRune_Some[OF assms(1)]
  note b = backup_nextRune[OF assms(1)]
  have "pos (backup p') < pos (scanIdentifier (backup p'))"
    using scanIdentifier_step[of "backup p'"] s b alnum_not_terminator[OF assms(2)] by simp
  then show ?thesis using b ahead_scanIdentifier[of "backup p'"] by (simp add: ahead_def)
qed

lemma scanFilter_start: "scanFilter p b e c = Inr q \<Longrightarrow> start q = start p"
proof (induction p b e c rule: scanFilter.induct)
  case (1 p b e c)
  obtain x p' where n: "nextRune p = (x, p')" by force
  show ?case
  proof (cases x)
    case None
    then show ?thesis using 1(6) n by (subst (asm) scanFilter.simps) simp
  next
    case (Some r)
    note n' = n[unfolded Some]
    note s = nextRune_Some[OF n']
    note ih = 1(1-5)[OF n'[symmetric] refl]
    show ?thesis
      using 1(6) n' s ih
      by (subst (asm) scanFilter.simps) (auto split: if_splits)
  qed
qed

lemma textWeight_length: "length s \<le> textWeight s"
  by (simp add: textWeight_def)

lemma textWeight_drop_n: "n \<le> length s \<Longrightarrow> textWeight (drop n s) + n \<le> textWeight s"
proof -
  assume n: "n \<le> length s"
  have "textWeight (take n s @ drop n s) = textWeight (take n s) + textWeight (drop n s)"
    by (rule textWeight_append)
  moreover have "n \<le> textWeight (take n s)"
    using textWeight_length[of "take n s"] n by simp
  ultimately show ?thesis by simp
qed

lemma textWeight_strip2: "2 \<le> length s \<Longrightarrow> textWeight (take (length s - 2) s) + 2 \<le> textWeight s"
proof -
  assume n: "2 \<le> length s"
  have "textWeight (take (length s - 2) s @ drop (length s - 2) s)
        = textWeight (take (length s - 2) s) + textWeight (drop (length s - 2) s)"
    by (rule textWeight_append)
  moreover have "2 \<le> textWeight (drop (length s - 2) s)"
    using textWeight_length[of "drop (length s - 2) s"] n by simp
  ultimately show ?thesis by simp
qed

lemma filterRex_weight:
  assumes "filterRex t = Some (g1, g2, g3)"
  shows "textWeight g1 \<le> textWeight t \<and> textWeight g3 \<le> textWeight t"
proof -
  define G1 where "G1 = takeWhile (\<lambda>c. \<not> isOpChar c) t"
  define R1 where "R1 = dropWhile (\<lambda>c. \<not> isOpChar c) t"
  define OPS where "OPS = takeWhile isOpChar R1"
  define R2 where "R2 = dropWhile isOpChar R1"
  have eq: "filterRex t =
      (if G1 = [] \<or> OPS = [] \<or> CHR 0x0A \<in> set R2 then None
       else if R2 \<noteq> [] then Some (G1, OPS, R2)
       else if 2 \<le> length OPS then Some (G1, butlast OPS, [last OPS])
       else None)"
    unfolding filterRex_def Let_def G1_def OPS_def R2_def R1_def by (rule refl)
  have c: "G1 \<noteq> []" "OPS \<noteq> []" "g1 = G1" "g3 = R2 \<or> g3 = [last OPS]"
    using assms unfolding eq by (auto split: if_splits)
  have a: "textWeight g1 \<le> textWeight t"
    unfolding c(3) G1_def by (rule textWeight_takeWhile)
  have "t \<noteq> []" using c(1) unfolding G1_def by auto
  then have t1: "1 \<le> textWeight t"
    using textWeight_length[of t] by (cases t) auto
  have "textWeight R2 \<le> textWeight R1"
    unfolding R2_def by (rule textWeight_dropWhile)
  moreover have "textWeight R1 \<le> textWeight t"
    unfolding R1_def by (rule textWeight_dropWhile)
  ultimately have r2: "textWeight R2 \<le> textWeight t" by simp
  have "last OPS \<in> set OPS" using c(2) by (rule last_in_set)
  then have "isOpChar (last OPS)" unfolding OPS_def by (rule set_takeWhileD[THEN conjunct2])
  then have "last OPS \<noteq> CHR '',''" by (auto simp: isOpChar_def)
  then have "textWeight [last OPS] = 1" by (simp add: textWeight_def)
  then show ?thesis using a r2 t1 c(4) by auto
qed

lemma filter_weight:
  assumes "scanFilter (snd (consumeText (p\<lparr>pos := pos p + 3\<rparr>))) b e c = Inr q"
    and "nextRune q = (Some r, y)" and "consumeText y = (xa, ya)"
  shows "textWeight (take (length xa - 2) xa) + 5 \<le> textWeight (input p)
         \<and> input ya = input p \<and> pos p + 3 < pos ya"
proof -
  note f = scanFilter_ahead[OF assms(1)] scanFilter_start[OF assms(1)]
  note n = nextRune_Some[OF assms(2)]
  note c = consumeText_eq[OF assms(3)]
  have st: "start y = pos p + 3" using n f by simp
  have py: "pos p + 5 \<le> pos y" "pos y \<le> length (input p)" "input y = input p"
    using n f by simp_all
  have xa: "xa = take (pos y - (pos p + 3)) (drop (pos p + 3) (input p))"
    using assms(3) st py(3) by (auto simp: consumeText_def)
  have len: "2 \<le> length xa" using py unfolding xa by simp
  have "textWeight xa \<le> textWeight (drop (pos p + 3) (input p))"
    unfolding xa by (rule textWeight_take)
  moreover have "textWeight (drop (pos p + 3) (input p)) + (pos p + 3) \<le> textWeight (input p)"
    using py by (intro textWeight_drop_n) simp
  ultimately have "textWeight (take (length xa - 2) xa) + 5 \<le> textWeight (input p)"
    using textWeight_strip2[OF len] by simp
  then show ?thesis using c py by simp
qed

lemma hasPrefix_1: "hasPrefix p [a] \<Longrightarrow> pos p + 1 \<le> length (input p)"
  using hasPrefix_length[of p "[a]"] by simp

lemma hasPrefix_2: "hasPrefix p [a, b] \<Longrightarrow> pos p + 2 \<le> length (input p)"
  using hasPrefix_length[of p "[a, b]"] by simp

lemma hasPrefix_3: "hasPrefix p [a, b, c] \<Longrightarrow> pos p + 3 \<le> length (input p)"
  using hasPrefix_length[of p "[a, b, c]"] by simp

section \<open>The recursive descent\<close>

text \<open>
  The loop \<^verbatim>\<open>for i := 0; i < 3; i++\<close> of \<^verbatim>\<open>parseArray\<close> that turns the three groups of the
  slice expression into \<^verbatim>\<open>ParamsEntry\<close> values; \<open>sliceParam i v\<close> is one round of it.
\<close>

definition sliceParam :: "nat \<Rightarrow> string \<Rightarrow> error + ParamsEntry" where
  "sliceParam i v =
     (if v \<noteq> []
      then (let v' = (if i > 0 then tl v else v)
            in if i > 0 \<and> v' = [] then Inr \<lparr>Value = 0, Known = False, Derived = False\<rparr>
               else (case Atoi v' of
                       None \<Rightarrow> Inl (Err (''array index '' @ v' @ '' is not a number''))
                     | Some n \<Rightarrow> Inr \<lparr>Value = n, Known = True, Derived = False\<rparr>))
      else Inr \<lparr>Value = 0, Known = False, Derived = False\<rparr>)"

definition sliceParams :: "string \<Rightarrow> string \<Rightarrow> string \<Rightarrow> error + ParamsEntry list" where
  "sliceParams v0 v1 v2 =
     (case sliceParam 0 v0 of
        Inl e \<Rightarrow> Inl e
      | Inr x \<Rightarrow>
          (case sliceParam 1 v1 of
             Inl e \<Rightarrow> Inl e
           | Inr y \<Rightarrow>
               (case sliceParam 2 v2 of
                  Inl e \<Rightarrow> Inl e
                | Inr z \<Rightarrow> Inr [x, y, z])))"

text \<open>
  The parser proper. \<open>root\<close> holds the nodes of \<^verbatim>\<open>p.Root\<close> that are complete, \<open>cur\<close> the
  nodes of the list of the action being parsed, which joins \<open>root\<close> when the action
  closes (the source appends the list to the root when the action opens and fills it in
  place; a parse that returns no error has closed every action). \<^verbatim>\<open>parseAction\<close> runs a
  fresh parser on a text of its own. \<open>parseUnion\<close> is the loop over the members of a union
  in \<^verbatim>\<open>parseArray\<close>. The three prefixes that \<^verbatim>\<open>parseInsideAction\<close> looks up in a map start
  with different characters, so the order of the lookup does not matter.
\<close>

function
  parseText :: "Parser \<Rightarrow> node list \<Rightarrow> error + node list" and
  parseLeftDelim :: "Parser \<Rightarrow> node list \<Rightarrow> error + node list" and
  parseInsideAction :: "Parser \<Rightarrow> node list \<Rightarrow> node list \<Rightarrow> error + node list" and
  parseRightDelim :: "Parser \<Rightarrow> node list \<Rightarrow> node list \<Rightarrow> error + node list" and
  parseIdentifier :: "Parser \<Rightarrow> node list \<Rightarrow> node list \<Rightarrow> error + node list" and
  parseRecursive :: "Parser \<Rightarrow> node list \<Rightarrow> node list \<Rightarrow> error + node list" and
  parseNumber :: "Parser \<Rightarrow> node list \<Rightarrow> node list \<Rightarrow> error + node list" and
  parseArray :: "Parser \<Rightarrow> node list \<Rightarrow> node list \<Rightarrow> error + node list" and
  parseUnion :: "string list \<Rightarrow> node list list \<Rightarrow> error + node list list" and
  parseAction :: "string \<Rightarrow> string \<Rightarrow> error + node list" and
  parseFilter :: "Parser \<Rightarrow> node list \<Rightarrow> node list \<Rightarrow> error + node list" and
  parseQuote :: "Parser \<Rightarrow> node list \<Rightarrow> node list \<Rightarrow> char \<Rightarrow> error + node list" and
  parseField :: "Parser \<Rightarrow> node list \<Rightarrow> node list \<Rightarrow> error + node list"
where
  "parseText p root =
     (if hasPrefix p leftDelim
      then (if pos p > start p
            then parseLeftDelim (snd (consumeText p)) (root @ [TextNode (fst (consumeText p))])
            else parseLeftDelim p root)
      else (case nextRune p of
              (None, p') \<Rightarrow>
                Inr (if pos p' > start p' then root @ [TextNode (fst (consumeText p'))] else root)
            | (Some r, p') \<Rightarrow> parseText p' root))"
| "parseLeftDelim p root =
     parseInsideAction (snd (consumeText (p\<lparr>pos := pos p + length leftDelim\<rparr>))) root []"
| "parseInsideAction p root cur =
     (if hasPrefix p rightDelim then parseRightDelim p root cur
      else if hasPrefix p ''[?('' then parseFilter p root cur
      else if hasPrefix p ''..'' then parseRecursive p root cur
      else (case nextRune p of
              (None, p') \<Rightarrow> Inl (Err ''unclosed action'')
            | (Some r, p') \<Rightarrow>
                if isEndOfLine r then Inl (Err ''unclosed action'')
                else if r = CHR '' '' then parseInsideAction (snd (consumeText p')) root cur
                else if r = CHR ''@'' \<or> r = CHR ''$'' then parseInsideAction (snd (consumeText p')) root cur
                else if r = CHR ''['' then parseArray p' root cur
                else if r = CHR 0x22 \<or> r = CHR 0x27 then parseQuote p' root cur r
                else if r = CHR ''.'' then parseField p' root cur
                else if r = CHR ''+'' \<or> r = CHR ''-'' \<or> isDigit r then parseNumber (backup p') root cur
                else if isAlphaNumeric r then parseIdentifier (backup p') root cur
                else Inl (Err ''unrecognized character in action'')))"
| "parseRightDelim p root cur =
     parseText (snd (consumeText (p\<lparr>pos := pos p + length rightDelim\<rparr>))) (root @ [ListNode cur])"
| "parseIdentifier p root cur =
     (case consumeText (scanIdentifier p) of
        (val, p') \<Rightarrow>
          parseInsideAction p' root
            (cur @ [if isBool val then BoolNode (val = ''true'') else IdentifierNode val]))"
| "parseRecursive p root cur =
     (if cur \<noteq> [] \<and> last cur = RecursiveNode
      then Inl (Err ''invalid multiple recursive descent'')
      else (case peek (snd (consumeText (p\<lparr>pos := pos p + 2\<rparr>))) of
              (r, p') \<Rightarrow>
                if (case r of Some c \<Rightarrow> isAlphaNumeric c | None \<Rightarrow> False)
                then parseField p' root (cur @ [RecursiveNode])
                else parseInsideAction p' root (cur @ [RecursiveNode])))"
| "parseNumber p root cur =
     (case consumeText (scanNumber p) of
        (val, p') \<Rightarrow>
          (case Atoi val of
             Some i \<Rightarrow> parseInsideAction p' root (cur @ [IntNode i])
           | None \<Rightarrow>
               (case ParseFloat val of
                  Some d \<Rightarrow> parseInsideAction p' root (cur @ [FloatNode d])
                | None \<Rightarrow> Inl (Err (''cannot parse number '' @ val)))))"
| "parseArray p root cur =
     (case scanArray p of
        Inl e \<Rightarrow> Inl e
      | Inr p1 \<Rightarrow>
          (case consumeText p1 of
             (text0, p') \<Rightarrow>
               if length text0 < 2 then Inl Panic
               else (let text = take (length text0 - 2) (drop 1 text0)
                     in if text = ''*'' then parseInsideAction p' root (cur @ [WildcardNode])
                        else if length (splitByComma text) > 1
                        then (case parseUnion (splitByComma text) [] of
                                Inl e \<Rightarrow> Inl e
                              | Inr unionList \<Rightarrow> parseInsideAction p' root (cur @ [UnionNode unionList]))
                        else (case dictKeyRex (TrimSpace text) of
                                Some v \<Rightarrow> parseInsideAction p' root (cur @ [FieldNode v])
                              | None \<Rightarrow>
                                  (case sliceOperatorRex (TrimSpace text) of
                                     None \<Rightarrow> Inl (Err (''invalid array index '' @ TrimSpace text))
                                   | Some (v0, v1, v2) \<Rightarrow>
                                       if v1 = [] \<and> v2 = []
                                       then (if v0 = []
                                             then parseInsideAction p' root
                                                    (cur @ [ArrayElementNode
                                                       \<lparr>Value = 0, Known = False, Derived = False\<rparr>])
                                             else (case Atoi v0 of
                                                     None \<Rightarrow>
                                                       Inl (Err (''array index '' @ v0 @ '' is not a number''))
                                                   | Some i \<Rightarrow>
                                                       parseInsideAction p' root
                                                         (cur @ [ArrayElementNode
                                                            \<lparr>Value = i, Known = True, Derived = False\<rparr>])))
                                       else (case sliceParams v0 v1 v2 of
                                               Inl e \<Rightarrow> Inl e
                                             | Inr params \<Rightarrow>
                                                 parseInsideAction p' root (cur @ [ArrayNode params])))))))"
| "parseUnion [] unionList = Inr unionList"
| "parseUnion (str # strs) unionList =
     (case parseAction ''union'' (''['' @ Trim str (CHR '' '') @ '']'') of
        Inl e \<Rightarrow> Inl e
      | Inr root \<Rightarrow> parseUnion strs (unionList @ [root]))"
| "parseAction nm text =
     (case parseText ((NewParser nm)\<lparr>input := leftDelim @ text @ rightDelim, pos := 0\<rparr>) [] of
        Inl e \<Rightarrow> Inl e
      | Inr root \<Rightarrow> (case root of ListNode ns # _ \<Rightarrow> Inr ns | _ \<Rightarrow> Inl Panic))"
| "parseFilter p root cur =
     (case scanFilter (snd (consumeText (p\<lparr>pos := pos p + 3\<rparr>))) False False (CHR 0x00) of
        Inl e \<Rightarrow> Inl e
      | Inr p1 \<Rightarrow>
          (case nextRune p1 of
             (r, p2) \<Rightarrow>
               if r \<noteq> Some CHR '']'' then Inl (Err ''unclosed array expect ]'')
               else (case consumeText p2 of
                       (text0, p') \<Rightarrow>
                         (let text = take (length text0 - 2) text0
                          in case filterRex text of
                               None \<Rightarrow>
                                 (case parseAction ''text'' text of
                                    Inl e \<Rightarrow> Inl e
                                  | Inr left \<Rightarrow>
                                      parseInsideAction p' root (cur @ [FilterNode left [] ''exists'']))
                             | Some (g1, g2, g3) \<Rightarrow>
                                 (case parseAction ''left'' g1 of
                                    Inl e \<Rightarrow> Inl e
                                  | Inr left \<Rightarrow>
                                      (case parseAction ''right'' g3 of
                                         Inl e \<Rightarrow> Inl e
                                       | Inr right \<Rightarrow>
                                           parseInsideAction p' root
                                             (cur @ [FilterNode left right g2])))))))"
| "parseQuote p root cur end =
     (case scanQuote p end of
        Inl e \<Rightarrow> Inl e
      | Inr p1 \<Rightarrow>
          (case consumeText p1 of
             (val, p') \<Rightarrow>
               (case UnquoteExtend val of
                  None \<Rightarrow> Inl (Err (''unquote string '' @ val @ '' error''))
                | Some s \<Rightarrow> parseInsideAction p' root (cur @ [TextNode s]))))"
| "parseField p root cur =
     (case consumeText (advanceLoop (snd (consumeText p))) of
        (val, p') \<Rightarrow>
          parseInsideAction p' root
            (cur @ [if val = ''*'' then WildcardNode
                    else FieldNode (filter (\<lambda>c. c \<noteq> CHR 0x5C) val)]))"
  by pat_completeness auto

termination
  apply (relation "measures
    [\<lambda>x. case x of
            Inl (Inl (Inl (p, root))) \<Rightarrow> 3 * textWeight (input p)
          | Inl (Inl (Inr (Inl (p, root)))) \<Rightarrow> 3 * textWeight (input p)
          | Inl (Inl (Inr (Inr (p, root, cur)))) \<Rightarrow> 3 * textWeight (input p)
          | Inl (Inr (Inl (p, root, cur))) \<Rightarrow> 3 * textWeight (input p)
          | Inl (Inr (Inr (Inl (p, root, cur)))) \<Rightarrow> 3 * textWeight (input p)
          | Inl (Inr (Inr (Inr (p, root, cur)))) \<Rightarrow> 3 * textWeight (input p)
          | Inr (Inl (Inl (p, root, cur))) \<Rightarrow> 3 * textWeight (input p)
          | Inr (Inl (Inr (Inl (p, root, cur)))) \<Rightarrow> 3 * textWeight (input p)
          | Inr (Inl (Inr (Inr (strs, unionList)))) \<Rightarrow> 3 * unionWeight strs + 2
          | Inr (Inr (Inl (Inl (nm, text)))) \<Rightarrow> 3 * textWeight (leftDelim @ text @ rightDelim) + 1
          | Inr (Inr (Inl (Inr (p, root, cur)))) \<Rightarrow> 3 * textWeight (input p)
          | Inr (Inr (Inr (Inl (p, root, cur, e)))) \<Rightarrow> 3 * textWeight (input p)
          | Inr (Inr (Inr (Inr (p, root, cur)))) \<Rightarrow> 3 * textWeight (input p),
     \<lambda>x. case x of
            Inl (Inl (Inl (p, root))) \<Rightarrow> 3 * (length (input p) - pos p) + 3
          | Inl (Inl (Inr (Inl (p, root)))) \<Rightarrow> 3 * (length (input p) - (pos p + 1)) + 4
          | Inl (Inl (Inr (Inr (p, root, cur)))) \<Rightarrow> 3 * (length (input p) - pos p) + 2
          | Inl (Inr (Inl (p, root, cur))) \<Rightarrow> 3 * (length (input p) - (pos p + 1)) + 4
          | Inl (Inr (Inr (Inl (p, root, cur)))) \<Rightarrow>
              3 * (length (input p) - pos (scanIdentifier p)) + 3
          | Inl (Inr (Inr (Inr (p, root, cur)))) \<Rightarrow> 3 * (length (input p) - (pos p + 2)) + 4
          | Inr (Inl (Inl (p, root, cur))) \<Rightarrow> 3 * (length (input p) - pos (scanNumber p)) + 3
          | Inr (Inl (Inr (Inl (p, root, cur)))) \<Rightarrow> 3 * (length (input p) - pos p) + 3
          | Inr (Inl (Inr (Inr (strs, unionList)))) \<Rightarrow> length strs
          | Inr (Inr (Inl (Inl (nm, text)))) \<Rightarrow> 0
          | Inr (Inr (Inl (Inr (p, root, cur)))) \<Rightarrow> 3 * (length (input p) - (pos p + 3)) + 4
          | Inr (Inr (Inr (Inl (p, root, cur, e)))) \<Rightarrow> 3 * (length (input p) - pos p) + 3
          | Inr (Inr (Inr (Inr (p, root, cur)))) \<Rightarrow> 3 * (length (input p) - pos p) + 3]")
                      apply simp
                      apply (simp_all add: leftDelim_def rightDelim_def)
  subgoal by (drule hasPrefix_1) arith
  subgoal by (drule hasPrefix_1) arith
  subgoal by (drule nextRune_Some[OF sym]) auto
  subgoal by (drule hasPrefix_1) arith
  subgoal by (drule hasPrefix_3) arith
  subgoal by (drule hasPrefix_2) arith
  subgoal by (drule nextRune_Some[OF sym]) auto
  subgoal by (drule nextRune_Some[OF sym]) auto
  subgoal by (drule nextRune_Some[OF sym]) auto
  subgoal by (drule nextRune_Some[OF sym]) auto
  subgoal by (drule nextRune_Some[OF sym]) auto
  subgoal for p x y x2
    using number_edge[of p x2 y] nextRune_Some[of p x2 y] backup_nextRune[of p "Some x2" y]
    by auto
  subgoal for p x y x2
    using identifier_edge[of p x2 y] nextRune_Some[of p x2 y] backup_nextRune[of p "Some x2" y]
    by auto
  subgoal for p x y
    using consumeText_eq[of "scanIdentifier p" x y] ahead_scanIdentifier[of p]
    by (simp add: ahead_def)
  subgoal for p cur x y
    using peek_props[of "snd (consumeText (p\<lparr>pos := Suc (Suc (pos p))\<rparr>))" x y] by simp
  subgoal for p cur x y
    using peek_props[of "snd (consumeText (p\<lparr>pos := Suc (Suc (pos p))\<rparr>))" x y] by simp
  subgoal for p x y
    using consumeText_eq[of "scanNumber p" x y] ahead_scanNumber[of p]
    by (simp add: ahead_def)
  subgoal for p x y
    using consumeText_eq[of "scanNumber p" x y] ahead_scanNumber[of p]
    by (simp add: ahead_def)
  subgoal for p b x y using scanArray_ahead[of p b] consumeText_eq[of b x y] by auto
  subgoal for p b x y
    using union_weight[of b x y] scanArray_ahead[of p b] by auto
  subgoal for p b x y using scanArray_ahead[of p b] consumeText_eq[of b x y] by auto
  subgoal for p b x y using scanArray_ahead[of p b] consumeText_eq[of b x y] by auto
  subgoal for p b x y using scanArray_ahead[of p b] consumeText_eq[of b x y] by auto
  subgoal for p b x y using scanArray_ahead[of p b] consumeText_eq[of b x y] by auto
  subgoal for p b x y using scanArray_ahead[of p b] consumeText_eq[of b x y] by auto
  subgoal by arith
  subgoal by arith
  subgoal for p b x y xa ya
    using filter_weight[of p False False "CHR 0x00" b "CHR '']''" y xa ya]
    by (auto simp: textWeight_Cons)
  subgoal for p b x y xa ya
    using filter_weight[of p False False "CHR 0x00" b "CHR '']''" y xa ya] by auto
  subgoal for p b x y xa ya xb x2 xc yb xd yc
    using filter_weight[of p False False "CHR 0x00" b "CHR '']''" y xa ya]
      filterRex_weight[of "take (length xa - 2) xa" xc xd yc]
    by (auto simp: textWeight_Cons)
  subgoal for p b x y xa ya xb x2 xc yb xd yc
    using filter_weight[of p False False "CHR 0x00" b "CHR '']''" y xa ya]
      filterRex_weight[of "take (length xa - 2) xa" xc xd yc]
    by (auto simp: textWeight_Cons)
  subgoal for p b x y xa ya
    using filter_weight[of p False False "CHR 0x00" b "CHR '']''" y xa ya] by auto
  subgoal for p e b x y using scanQuote_ahead[of p e b] consumeText_eq[of b x y] by auto
  subgoal for p x y
    using consumeText_eq[of "advanceLoop (snd (consumeText p))" x y]
      ahead_advanceLoop[of "snd (consumeText p)"]
    by (auto simp: ahead_def)
  done

declare parseText.simps [simp del] parseLeftDelim.simps [simp del] parseInsideAction.simps [simp del]
  parseRightDelim.simps [simp del] parseIdentifier.simps [simp del] parseRecursive.simps [simp del]
  parseNumber.simps [simp del] parseArray.simps [simp del] parseUnion.simps [simp del]
  parseAction.simps [simp del] parseFilter.simps [simp del] parseQuote.simps [simp del]
  parseField.simps [simp del]

text \<open>
  \<^verbatim>\<open>Parse\<close>: a new parser is given the text and run; the result is the list of nodes of
  \<^verbatim>\<open>p.Root\<close>.
\<close>

definition Parse :: "string \<Rightarrow> string \<Rightarrow> error + node list" where
  "Parse nm text = parseText ((NewParser nm)\<lparr>input := text, pos := 0\<rparr>) []"

section \<open>Compiling an expression (jsonpath.go)\<close>

text \<open>\<^verbatim>\<open>New\<close> wraps the expression in braces and replaces any parse error by its own.\<close>

definition New :: "string \<Rightarrow> string \<Rightarrow> error + Jsonpath" where
  "New nm expr =
     (case Parse nm (''{'' @ expr @ ''}'') of
        Inl (Err e) \<Rightarrow> Inl (Err ''cannot parse jsonpath string'')
      | Inl e \<Rightarrow> Inl e
      | Inr root \<Rightarrow>
          Inr \<lparr>name = nm, parser = Some root, writeMode = False, dataHolder = [], warnings = []\<rparr>)"

section \<open>Concrete inputs\<close>

text \<open>A path object with no compiled expression, for the concrete runs below.\<close>

definition emptyPath :: "bool \<Rightarrow> val list \<Rightarrow> Jsonpath" where
  "emptyPath wm ds = \<lparr>name = ''t'', parser = None, writeMode = wm, dataHolder = ds, warnings = []\<rparr>"

section \<open>Slice resolution as the specification words it\<close>

text \<open>
  The indices of a slice \<open>(x, y, z)\<close> of an array of length \<open>L\<close>, following the
  specification sentence by sentence, over unbounded integers: the step, the base, the
  limit, and the loop that visits \<open>base\<close>, \<open>base + step\<close>, ... while the condition holds.
  A forward loop is one with a positive step, a backward loop one with a negative step.
\<close>

definition specStep :: "ParamsEntry \<Rightarrow> int" where
  "specStep z = (let step = (if Known z then Value z else 0) in if step = 0 then 1 else step)"

definition specBase :: "int \<Rightarrow> ParamsEntry \<Rightarrow> int \<Rightarrow> int" where
  "specBase L x step =
     (if Known x
      then (if Value x > L - 1 \<and> step < 0 then L - 1
            else if Value x > L - 1 \<and> step > 0 then Value x
            else if 0 \<le> Value x \<and> Value x \<le> L - 1 then Value x
            else if - L \<le> Value x \<and> Value x < 0 then Value x + L
            else 0)
      else (if step > 0 then 0 else L - 1))"

definition specLimit :: "int \<Rightarrow> ParamsEntry \<Rightarrow> int \<Rightarrow> int" where
  "specLimit L y step =
     (if Known y
      then (if Value y \<ge> 0 then Value y
            else if Value y \<ge> - L then Value y + L
            else -1)
      else (if step > 0 then L else -1))"

function specForward :: "int \<Rightarrow> int \<Rightarrow> int \<Rightarrow> int \<Rightarrow> int list" where
  "specForward L limit step i =
     (if 0 < step \<and> i < L \<and> i > -1 \<and> i < limit then i # specForward L limit step (i + step) else [])"
  by pat_completeness auto
termination
  by (relation "measure (\<lambda>(L, limit, step, i). nat (L - i))") auto

function specBackward :: "int \<Rightarrow> int \<Rightarrow> int \<Rightarrow> int \<Rightarrow> int list" where
  "specBackward L limit step i =
     (if step < 0 \<and> i < L \<and> i > -1 \<and> i > limit then i # specBackward L limit step (i + step) else [])"
  by pat_completeness auto
termination
  by (relation "measure (\<lambda>(L, limit, step, i). nat (i + 1))") auto

definition specSlice :: "int \<Rightarrow> ParamsEntry \<Rightarrow> ParamsEntry \<Rightarrow> ParamsEntry \<Rightarrow> int list" where
  "specSlice L x y z =
     (let step = specStep z; base = specBase L x step; limit = specLimit L y step
      in if step < 0 then specBackward L limit step base else specForward L limit step base)"

text \<open>
  What \<^verbatim>\<open>evalArray\<close> is to make of one footprint: \<open>arrayHolder\<close> says that it is an array
  footprint whose holder is an array (of a length a Go slice can have), and
  \<open>specSliceFootprint\<close> is the footprint of that array with the indices of the
  specification selected. \<^verbatim>\<open>Virtual\<close> of an index is set in write mode, for an index at or
  beyond the \<^verbatim>\<open>RealSize\<close> of the footprint.
\<close>

definition arrayHolder :: "Jsonpath \<Rightarrow> Footprint \<Rightarrow> bool" where
  "arrayHolder j fp =
     (case fp of
        ArrayFootprint l r sis vi \<Rightarrow>
          (case valAt (rootVal j) r of Some (VArr arr) \<Rightarrow> int (length arr) < 2 ^ 63 | _ \<Rightarrow> False)
      | _ \<Rightarrow> False)"

definition specSliceFootprint ::
  "Jsonpath \<Rightarrow> ParamsEntry \<Rightarrow> ParamsEntry \<Rightarrow> ParamsEntry \<Rightarrow> Footprint \<Rightarrow> Footprint" where
  "specSliceFootprint j x y z fp =
     (case fp of
        ArrayFootprint l r sis vi \<Rightarrow>
          (case valAt (rootVal j) r of
             Some (VArr arr) \<Rightarrow>
               ArrayFootprint False r
                 (map (newIndex (writeMode j) (RealSize vi)) (specSlice (int (length arr)) x y z))
                 \<lparr>Virtual = False, RealSize = 0\<rparr>
           | _ \<Rightarrow> fp)
      | _ \<Rightarrow> fp)"





text \<open>A footprint whose holder is there and is not an object.\<close>

definition nonObject :: "Jsonpath \<Rightarrow> Footprint \<Rightarrow> bool" where
  "nonObject j fp = (case HolderPtr j fp of Some (VMap m) \<Rightarrow> False | Some _ \<Rightarrow> True | None \<Rightarrow> False)"


text \<open>Two states with the same document and the same mode.\<close>

definition sameDoc :: "Jsonpath \<Rightarrow> Jsonpath \<Rightarrow> bool" where
  "sameDoc j j' \<longleftrightarrow> dataHolder j' = dataHolder j \<and> writeMode j' = writeMode j"

text \<open>
  A comparison parameter and a small document for the concrete runs of the filter: the
  array \<^verbatim>\<open>[{"a": 1, "b": 2}]\<close>, its only element, and the root footprint that \<^verbatim>\<open>FindResult\<close>
  starts from.
\<close>

definition nullTemplate :: Template where
  "nullTemplate =
     \<lparr>Less = (\<lambda>a b. Inl (Err ''incompatible types for comparison'')),
      Greater = (\<lambda>a b. Inl (Err ''incompatible types for comparison'')),
      Equal = (\<lambda>a b. Inr (a = b)),
      NotEqual = (\<lambda>a b. Inr (a \<noteq> b)),
      LessEqual = (\<lambda>a b. Inl (Err ''incompatible types for comparison'')),
      GreaterEqual = (\<lambda>a b. Inl (Err ''incompatible types for comparison''))\<rparr>"

definition abDoc :: Jsonpath where
  "abDoc = emptyPath False [VArr [VMap [(''a'', VInt 1), (''b'', VInt 2)]]]"

definition abElement :: Footprint where
  "abElement = MapFootprint False [PIdx 0, PIdx 0] [] False"

definition abRoot :: "Footprint list" where
  "abRoot = [ArrayFootprint False [] [\<lparr>Virtual = False, RealSize = -1, Index = 0\<rparr>]
               \<lparr>Virtual = False, RealSize = 0\<rparr>]"

section \<open>Expansion of a footprint that was left as it is\<close>

lemma Expand_leave_container:
  "Expand j (LeaveItAsItIs (MapFootprint l r sks v)) = Inr [MapFootprint False r sks v]"
  "Expand j (LeaveItAsItIs (ArrayFootprint l r sis vi)) = Inr [ArrayFootprint False r sis vi]"
  "Expand j (MapFootprint False r [] v) = Inr []"
  "Expand j (ArrayFootprint False r [] vi) = Inr []"
  by simp_all

text \<open>
  Claim C2. A map or array footprint that was left as it is expands to itself with the
  flag cleared, and one with an empty selection and no flag expands to nothing
  (\<open>Expand_leave_container\<close>). A \<open>NonRefFootprint\<close> does not: \<^verbatim>\<open>NonRefFootprint.Expand\<close>
  clears the flag before it tests it, so the branch that returns the footprint is never
  taken and the method returns an error whatever the flag was.
\<close>

theorem C2_nonref_expand_after_leave:
  "Expand j (LeaveItAsItIs (NonRefFootprint l x))
   = Inl (Err ''non-reference foot print cannot be expand'')"
  by simp

section \<open>Literals\<close>

text \<open>
  Claim C8 as stated fails: the literal handlers expand the incoming footprints first, so
  one incoming map footprint that selects two keys yields two literal footprints.
\<close>

theorem C8_counterexample:
  "length (projr (fst (evalInt (emptyPath False [VMap [(''a'', VInt 1), (''b'', VInt 2)]])
       [MapFootprint False [PIdx 0]
          [\<lparr>Virtual = False, RealSize = -1, Key = ''a''\<rparr>,
           \<lparr>Virtual = False, RealSize = -1, Key = ''b''\<rparr>] False] 42)))
   \<noteq> length [MapFootprint False [PIdx 0]
          [\<lparr>Virtual = False, RealSize = -1, Key = ''a''\<rparr>,
           \<lparr>Virtual = False, RealSize = -1, Key = ''b''\<rparr>] False]"
  by (simp add: evalInt_def expandFootprints_def emptyPath_def rootVal_def NewFootprint_def)

text \<open>
  Claim C8, amended. Evaluating an Int, Float or Bool literal returns one
  \<open>NonRefFootprint\<close> holding the literal for every footprint of the expansion of the
  incoming set, without an error and without a change of the state.
\<close>

theorem C8_literal_per_expanded_footprint:
  assumes "expandFootprints j footprints False = Inr fps"
  shows "evalInt j footprints i = (Inr (replicate (length fps) (NonRefFootprint False (VInt i))), j)
       \<and> evalFloat j footprints f = (Inr (replicate (length fps) (NonRefFootprint False (VFloat f))), j)
       \<and> evalBool j footprints b = (Inr (replicate (length fps) (NonRefFootprint False (VBool b))), j)"
  using assms by (simp add: evalInt_def evalFloat_def evalBool_def NewFootprint_def map_replicate_const)

theorem C8_witness:
  "expandFootprints (emptyPath False [VMap [(''a'', VInt 1), (''b'', VInt 2)]])
       [MapFootprint False [PIdx 0]
          [\<lparr>Virtual = False, RealSize = -1, Key = ''a''\<rparr>,
           \<lparr>Virtual = False, RealSize = -1, Key = ''b''\<rparr>] False] False
     = Inr [NonRefFootprint False (VInt 1), NonRefFootprint False (VInt 2)]
   \<and> evalInt (emptyPath False [VMap [(''a'', VInt 1), (''b'', VInt 2)]])
       [MapFootprint False [PIdx 0]
          [\<lparr>Virtual = False, RealSize = -1, Key = ''a''\<rparr>,
           \<lparr>Virtual = False, RealSize = -1, Key = ''b''\<rparr>] False] 42
     = (Inr [NonRefFootprint False (VInt 42), NonRefFootprint False (VInt 42)],
        emptyPath False [VMap [(''a'', VInt 1), (''b'', VInt 2)]])"
proof -
  have e: "expandFootprints (emptyPath False [VMap [(''a'', VInt 1), (''b'', VInt 2)]])
       [MapFootprint False [PIdx 0]
          [\<lparr>Virtual = False, RealSize = -1, Key = ''a''\<rparr>,
           \<lparr>Virtual = False, RealSize = -1, Key = ''b''\<rparr>] False] False
     = Inr [NonRefFootprint False (VInt 1), NonRefFootprint False (VInt 2)]"
    by (simp add: expandFootprints_def emptyPath_def rootVal_def NewFootprint_def)
  show ?thesis
    using e C8_literal_per_expanded_footprint [OF e, of 42] by simp
qed

section \<open>A single index in write mode\<close>








section \<open>Slice resolution\<close>

declare specForward.simps [simp del] specBackward.simps [simp del]

lemma int64_id: "isInt64 x \<Longrightarrow> int64 x = x"
  by (simp add: isInt64_def int64_def)

lemma int64_wrap: "2 ^ 63 \<le> x \<Longrightarrow> x < 2 ^ 64 \<Longrightarrow> int64 x < 0"
proof -
  assume a: "2 ^ 63 \<le> x" "x < 2 ^ 64"
  define y where "y = x - 2 ^ 63"
  have x: "x + 2 ^ 63 = y + 2 ^ 64" by (simp add: y_def)
  have "(y + 2 ^ 64) mod 2 ^ 64 = y mod 2 ^ 64" by (rule mod_add_self2)
  also have "\<dots> = y" using a by (intro mod_pos_pos_trivial) (auto simp: y_def)
  finally have "int64 x = y - 2 ^ 63" unfolding int64_def x by simp
  then show ?thesis using a by (simp add: y_def)
qed

lemma forwardLoop_spec:
  "0 < step \<Longrightarrow> step < 2 ^ 63 \<Longrightarrow> L < 2 ^ 63 \<Longrightarrow>
   forwardLoop wm rs L limit step i acc
   = Some (acc @ map (newIndex wm rs) (specForward L limit step i))"
proof (induction L limit step i arbitrary: acc rule: specForward.induct)
  case (1 L limit step i)
  show ?case
  proof (cases "i < L \<and> i > -1 \<and> i < limit")
    case False
    then show ?thesis
      by (subst forwardLoop.simps, subst specForward.simps) auto
  next
    case True
    have unf: "forwardLoop wm rs L limit step i acc
        = forwardLoop wm rs L limit step (goAdd i step) (acc @ [newIndex wm rs i])"
      using True by (subst forwardLoop.simps) simp
    have sp: "specForward L limit step i = i # specForward L limit step (i + step)"
      using True 1(2) by (subst specForward.simps) simp
    show ?thesis
    proof (cases "i + step < 2 ^ 63")
      case True
      then have "goAdd i step = i + step"
        using \<open>i < L \<and> -1 < i \<and> i < limit\<close> 1(2) by (simp add: goAdd_def int64_id isInt64_def)
      then show ?thesis
        using unf sp 1(1)[OF _ 1(2) 1(3) 1(4)] \<open>i < L \<and> -1 < i \<and> i < limit\<close> 1(2) by simp
    next
      case False
      then have neg: "goAdd i step < 0"
        using \<open>i < L \<and> -1 < i \<and> i < limit\<close> 1(3) 1(4) by (simp add: goAdd_def int64_wrap)
      have "forwardLoop wm rs L limit step (goAdd i step) (acc @ [newIndex wm rs i])
            = Some (acc @ [newIndex wm rs i])"
        using neg by (subst forwardLoop.simps) simp
      moreover have "specForward L limit step (i + step) = []"
        using False 1(4) by (subst specForward.simps) simp
      ultimately show ?thesis using unf sp by simp
    qed
  qed
qed

lemma invertLoop_spec:
  "step < 0 \<Longrightarrow> - (2 ^ 63) \<le> step \<Longrightarrow> L < 2 ^ 63 \<Longrightarrow>
   invertLoop wm rs L limit step i acc
   = Some (acc @ map (newIndex wm rs) (specBackward L limit step i))"
proof (induction L limit step i arbitrary: acc rule: specBackward.induct)
  case (1 L limit step i)
  show ?case
  proof (cases "i < L \<and> i > -1 \<and> i > limit")
    case False
    then show ?thesis
      by (subst invertLoop.simps, subst specBackward.simps) auto
  next
    case True
    have unf: "invertLoop wm rs L limit step i acc
        = invertLoop wm rs L limit step (goAdd i step) (acc @ [newIndex wm rs i])"
      using True by (subst invertLoop.simps) simp
    have sp: "specBackward L limit step i = i # specBackward L limit step (i + step)"
      using True 1(2) by (subst specBackward.simps) simp
    have "goAdd i step = i + step"
      using True 1(2) 1(3) 1(4) by (simp add: goAdd_def int64_id isInt64_def)
    then show ?thesis
      using unf sp 1(1)[OF _ 1(2) 1(3) 1(4)] True 1(2) by simp
  qed
qed

lemma inferArrayNode_spec:
  assumes "isInt64 (Value x)" "isInt64 (Value y)" "isInt64 (Value z)" "int (length arr) < 2 ^ 63"
  shows "inferArrayNode arr [x, y, z]
     = Inr (specBase (int (length arr)) x (specStep z), specLimit (int (length arr)) y (specStep z),
            specStep z, specStep z < 0)"
proof -
  have a: "Value x < 0 \<Longrightarrow> - int (length arr) \<le> Value x
             \<Longrightarrow> goAdd (Value x) (int (length arr)) = Value x + int (length arr)"
    using assms(4) by (simp add: goAdd_def int64_id isInt64_def)
  have b: "Value y < 0 \<Longrightarrow> - int (length arr) \<le> Value y
             \<Longrightarrow> goAdd (Value y) (int (length arr)) = Value y + int (length arr)"
    using assms(4) by (simp add: goAdd_def int64_id isInt64_def)
  show ?thesis
    using a b by (auto simp: inferArrayNode_def specBase_def specLimit_def specStep_def Let_def)
qed

lemma sliceIndexes_spec:
  assumes "isInt64 (Value x)" "isInt64 (Value y)" "isInt64 (Value z)" "int (length arr) < 2 ^ 63"
  shows "sliceIndexes wm realSize arr [x, y, z]
         = Inr (map (newIndex wm realSize) (specSlice (int (length arr)) x y z))"
proof -
  have st: "specStep z \<noteq> 0" "isInt64 (specStep z)"
    using assms(3) by (auto simp: specStep_def Let_def isInt64_def)
  show ?thesis
  proof (cases "specStep z < 0")
    case True
    then show ?thesis
      using st assms(4) inferArrayNode_spec[OF assms]
      by (simp add: sliceIndexes_def specSlice_def Let_def invertLoop_spec isInt64_def)
  next
    case False
    then have "0 < specStep z" using st by simp
    then show ?thesis
      using st assms(4) inferArrayNode_spec[OF assms] False
      by (simp add: sliceIndexes_def specSlice_def Let_def forwardLoop_spec isInt64_def)
  qed
qed

lemma specSlice_normParams:
  "specSlice L (if \<not> Known x then x\<lparr>Value := 0\<rparr> else x) y z = specSlice L x y z"
  by (simp add: specSlice_def specBase_def)

lemma arrayLoop_spec:
  assumes "isInt64 (Value x)" "isInt64 (Value y)" "isInt64 (Value z)"
  shows "\<forall>fp \<in> set fps. arrayHolder j fp \<Longrightarrow>
         arrayLoop [x, y, z] fps result j = (Inr (result @ map (specSliceFootprint j x y z) fps), j)"
proof (induction fps arbitrary: result)
  case Nil
  then show ?case by simp
next
  case (Cons fp fps)
  from Cons.prems obtain l r sis vi arr where
    fp: "fp = ArrayFootprint l r sis vi" and h: "valAt (rootVal j) r = Some (VArr arr)"
    and len: "int (length arr) < 2 ^ 63"
    by (auto simp: arrayHolder_def split: Footprint.splits option.splits val.splits)
  have s: "sliceIndexes (writeMode j) (RealSize vi) arr [x, y, z]
           = Inr (map (newIndex (writeMode j) (RealSize vi)) (specSlice (int (length arr)) x y z))"
    by (rule sliceIndexes_spec[OF assms len])
  have "\<forall>fp \<in> set fps. arrayHolder j fp" using Cons.prems by simp
  from Cons.IH[OF this] show ?case
    using fp h s by (simp add: specSliceFootprint_def)
qed

text \<open>
  Claim C1. For an array of length \<open>L\<close> and slice parameters \<open>(x, y, z)\<close>, slice evaluation
  selects exactly the indices of the specification, in loop order: the loop of \<^verbatim>\<open>evalArray\<close>
  turns every footprint that holds an array into the footprint of that array with those
  indices selected, and so does \<^verbatim>\<open>evalArray\<close> itself, in read mode for the expansion of
  the incoming footprints and in write mode for the expansion that follows the
  enforcement. The values are Go ints and the length is that of a Go slice, so they lie
  in the 64-bit range; the wrap-around of \<^verbatim>\<open>i += step\<close> then never shows: a wrapped \<open>i\<close> is
  negative and ends the forward loop, as the unbounded \<open>i\<close> beyond \<open>L\<close> does. The
  write-mode prologue, which sets an unknown start to 0, changes nothing.
\<close>

theorem C1_slice_indexes:
  assumes "isInt64 (Value x)" "isInt64 (Value y)" "isInt64 (Value z)"
  shows "(int (length arr) < 2 ^ 63 \<longrightarrow>
            sliceIndexes wm realSize arr [x, y, z]
              = Inr (map (newIndex wm realSize) (specSlice (int (length arr)) x y z))
          \<and> sliceIndexes wm realSize arr (normParams [x, y, z])
              = Inr (map (newIndex wm realSize) (specSlice (int (length arr)) x y z)))
       \<and> ((\<forall>fp \<in> set fps. arrayHolder j fp) \<longrightarrow>
            arrayLoop [x, y, z] fps result j
              = (Inr (result @ map (specSliceFootprint j x y z) fps), j)
          \<and> arrayLoop (normParams [x, y, z]) fps result j
              = (Inr (result @ map (specSliceFootprint j x y z) fps), j))
       \<and> (\<not> writeMode j \<and> expandFootprints j footprints False = Inr fps
            \<and> (\<forall>fp \<in> set fps. arrayHolder j fp) \<longrightarrow>
            evalArray j footprints [x, y, z] = (Inr (map (specSliceFootprint j x y z) fps), j))
       \<and> (writeMode j \<and> footprints \<noteq> [] \<and> arrayTail [x, y, z] = Inr tail
            \<and> enforceArrayAll tail footprints j = (Inr footprints', j')
            \<and> expandFootprints j' footprints' False = Inr fps'
            \<and> (\<forall>fp \<in> set fps'. arrayHolder j' fp) \<longrightarrow>
            evalArray j footprints [x, y, z] = (Inr (map (specSliceFootprint j' x y z) fps'), j'))"
proof -
  have n: "isInt64 (Value (if \<not> Known x then x\<lparr>Value := 0\<rparr> else x))"
    using assms(1) by (simp add: isInt64_def)
  have np: "normParams [x, y, z] = [if \<not> Known x then x\<lparr>Value := 0\<rparr> else x, y, z]"
    by (simp add: normParams_def)
  have sf: "specSliceFootprint j (if \<not> Known x then x\<lparr>Value := 0\<rparr> else x) y z
            = specSliceFootprint j x y z" for j
    using specSlice_normParams[of _ x y z]
    by (auto simp: specSliceFootprint_def fun_eq_iff split: Footprint.splits option.splits val.splits)
  have a: "int (length arr) < 2 ^ 63 \<longrightarrow>
            sliceIndexes wm realSize arr [x, y, z]
              = Inr (map (newIndex wm realSize) (specSlice (int (length arr)) x y z))
          \<and> sliceIndexes wm realSize arr (normParams [x, y, z])
              = Inr (map (newIndex wm realSize) (specSlice (int (length arr)) x y z))"
    using sliceIndexes_spec[OF assms] sliceIndexes_spec[OF n assms(2) assms(3)] specSlice_normParams
    unfolding np by simp
  have b: "(\<forall>fp \<in> set fps. arrayHolder j fp) \<longrightarrow>
            arrayLoop [x, y, z] fps result j
              = (Inr (result @ map (specSliceFootprint j x y z) fps), j)
          \<and> arrayLoop (normParams [x, y, z]) fps result j
              = (Inr (result @ map (specSliceFootprint j x y z) fps), j)" for fps result j
    using arrayLoop_spec[OF assms, of fps j result] arrayLoop_spec[OF n assms(2) assms(3), of fps j result]
    unfolding np sf by simp
  have c: "\<not> writeMode j \<and> expandFootprints j footprints False = Inr fps
            \<and> (\<forall>fp \<in> set fps. arrayHolder j fp) \<longrightarrow>
            evalArray j footprints [x, y, z] = (Inr (map (specSliceFootprint j x y z) fps), j)"
    using b[of fps j "[]"] by (simp add: evalArray_def)
  have d: "writeMode j \<and> footprints \<noteq> [] \<and> arrayTail [x, y, z] = Inr tail
            \<and> enforceArrayAll tail footprints j = (Inr footprints', j')
            \<and> expandFootprints j' footprints' False = Inr fps'
            \<and> (\<forall>fp \<in> set fps'. arrayHolder j' fp) \<longrightarrow>
            evalArray j footprints [x, y, z] = (Inr (map (specSliceFootprint j' x y z) fps'), j')"
    using b[of fps' j' "[]"] by (simp add: evalArray_def)
  show ?thesis using a b[of fps j result] c d by blast
qed

theorem C1_witness:
  "isInt64 (Value \<lparr>Value = 0, Known = False, Derived = False\<rparr>)
   \<and> isInt64 (Value \<lparr>Value = -2, Known = True, Derived = False\<rparr>)
   \<and> \<not> writeMode (emptyPath False
         [VArr [VStr ''first'', VStr ''second'', VStr ''third'', VStr ''forth'', VStr ''fifth'']])
   \<and> expandFootprints (emptyPath False
         [VArr [VStr ''first'', VStr ''second'', VStr ''third'', VStr ''forth'', VStr ''fifth'']])
         [ArrayFootprint False [] [\<lparr>Virtual = False, RealSize = -1, Index = 0\<rparr>]
            \<lparr>Virtual = False, RealSize = 0\<rparr>] False
       = Inr [ArrayFootprint False [PIdx 0] [] \<lparr>Virtual = False, RealSize = -1\<rparr>]
   \<and> arrayHolder (emptyPath False
           [VArr [VStr ''first'', VStr ''second'', VStr ''third'', VStr ''forth'', VStr ''fifth'']])
         (ArrayFootprint False [PIdx 0] [] \<lparr>Virtual = False, RealSize = -1\<rparr>)
   \<and> evalArray (emptyPath False
         [VArr [VStr ''first'', VStr ''second'', VStr ''third'', VStr ''forth'', VStr ''fifth'']])
         [ArrayFootprint False [] [\<lparr>Virtual = False, RealSize = -1, Index = 0\<rparr>]
            \<lparr>Virtual = False, RealSize = 0\<rparr>]
         [\<lparr>Value = 0, Known = False, Derived = False\<rparr>,
          \<lparr>Value = 0, Known = False, Derived = False\<rparr>,
          \<lparr>Value = -2, Known = True, Derived = False\<rparr>]
       = (Inr [ArrayFootprint False [PIdx 0]
                 [\<lparr>Virtual = False, RealSize = -1, Index = 4\<rparr>,
                  \<lparr>Virtual = False, RealSize = -1, Index = 2\<rparr>,
                  \<lparr>Virtual = False, RealSize = -1, Index = 0\<rparr>]
                 \<lparr>Virtual = False, RealSize = 0\<rparr>],
          emptyPath False
            [VArr [VStr ''first'', VStr ''second'', VStr ''third'', VStr ''forth'', VStr ''fifth'']])"
proof -
  let ?j = "emptyPath False
         [VArr [VStr ''first'', VStr ''second'', VStr ''third'', VStr ''forth'', VStr ''fifth'']]"
  let ?u = "\<lparr>Value = 0, Known = False, Derived = False\<rparr>"
  let ?z = "\<lparr>Value = -2, Known = True, Derived = False\<rparr>"
  have a: "isInt64 (Value ?u)" by (simp add: isInt64_def)
  have b: "isInt64 (Value ?z)" by (simp add: isInt64_def)
  have m: "\<not> writeMode ?j" by (simp add: emptyPath_def)
  have e: "expandFootprints ?j
         [ArrayFootprint False [] [\<lparr>Virtual = False, RealSize = -1, Index = 0\<rparr>]
            \<lparr>Virtual = False, RealSize = 0\<rparr>] False
       = Inr [ArrayFootprint False [PIdx 0] [] \<lparr>Virtual = False, RealSize = -1\<rparr>]"
    by (simp add: expandFootprints_def emptyPath_def rootVal_def NewFootprint_def)
  have h: "arrayHolder ?j (ArrayFootprint False [PIdx 0] [] \<lparr>Virtual = False, RealSize = -1\<rparr>)"
    by (simp add: arrayHolder_def emptyPath_def rootVal_def)
  have s: "specSlice 5 ?u ?u ?z = [4, 2, 0]"
    by (simp add: specSlice_def specStep_def specBase_def specLimit_def specBackward.simps)
  have f: "specSliceFootprint ?j ?u ?u ?z
             (ArrayFootprint False [PIdx 0] [] \<lparr>Virtual = False, RealSize = -1\<rparr>)
           = ArrayFootprint False [PIdx 0]
                 [\<lparr>Virtual = False, RealSize = -1, Index = 4\<rparr>,
                  \<lparr>Virtual = False, RealSize = -1, Index = 2\<rparr>,
                  \<lparr>Virtual = False, RealSize = -1, Index = 0\<rparr>]
                 \<lparr>Virtual = False, RealSize = 0\<rparr>"
    using s by (simp add: specSliceFootprint_def emptyPath_def rootVal_def newIndex_def)
  show ?thesis
    using a b m e h f
      C1_slice_indexes [OF a a b, where j = ?j
        and footprints = "[ArrayFootprint False [] [\<lparr>Virtual = False, RealSize = -1, Index = 0\<rparr>]
            \<lparr>Virtual = False, RealSize = 0\<rparr>]"
        and fps = "[ArrayFootprint False [PIdx 0] [] \<lparr>Virtual = False, RealSize = -1\<rparr>]"]
    by simp
qed

section \<open>Field access on a value that is not an object\<close>

lemma nonObject_cong: "rootVal j = rootVal j0 \<Longrightarrow> nonObject j fp = nonObject j0 fp"
  by (cases fp) (simp_all add: nonObject_def)

lemma fieldLoop_drop_aux:
  "\<not> writeMode j \<Longrightarrow> rootVal j = rootVal j0 \<Longrightarrow>
   fieldLoop nm fps result j = fieldLoop nm (filter (\<lambda>fp. \<not> nonObject j0 fp) fps) result j"
proof (induction fps arbitrary: result j)
  case Nil
  then show ?case by simp
next
  case (Cons fp fps)
  note ih = Cons.IH
  note n0 = nonObject_cong[OF Cons.prems(2), of fp]
  show ?case
  proof (cases "HolderPtr j fp")
    case None
    then have "\<not> nonObject j0 fp" using n0 by (simp add: nonObject_def)
    then show ?thesis using None by simp
  next
    case (Some v)
    show ?thesis
    proof (cases "\<exists>m. v = VMap m")
      case False
      then have n: "nonObject j0 fp" using Some n0 by (cases v) (auto simp: nonObject_def)
      have "fieldLoop nm (fp # fps) result j = fieldLoop nm fps result j"
        using Some False by (cases v) auto
      then show ?thesis using n ih[OF Cons.prems] by simp
    next
      case True
      then obtain m where m: "v = VMap m" by blast
      have n: "\<not> nonObject j0 fp" using Some m n0 by (simp add: nonObject_def)
      show ?thesis
      proof (cases "holderRef fp")
        case None
        then show ?thesis using Some m n by simp
      next
        case r: (Some ref)
        show ?thesis
        proof (cases "map_of m nm")
          case None
          have w: "\<not> writeMode (AddWarning (''cannot find the field: '' @ nm) j)"
            "rootVal (AddWarning (''cannot find the field: '' @ nm) j) = rootVal j0"
            using Cons.prems by (simp_all add: AddWarning_def rootVal_def)
          show ?thesis
            using Some m n r None Cons.prems(1) ih[OF w] by simp
        next
          case a: (Some x)
          show ?thesis
            using Some m n r a ih[OF Cons.prems] by simp
        qed
      qed
    qed
  qed
qed

lemma fieldLoop_drop:
  "\<not> writeMode j \<Longrightarrow>
   fieldLoop nm fps result j = fieldLoop nm (filter (\<lambda>fp. \<not> nonObject j fp) fps) result j"
  by (rule fieldLoop_drop_aux) simp_all

lemma fieldLoop_all_nonObject:
  "\<forall>fp \<in> set fps. nonObject j fp \<Longrightarrow> fieldLoop nm fps result j = (Inr result, j)"
proof (induction fps)
  case Nil
  then show ?case by simp
next
  case (Cons fp fps)
  then have n: "nonObject j fp" by simp
  then obtain v where v: "HolderPtr j fp = Some v" "\<forall>m. v \<noteq> VMap m"
    by (auto simp: nonObject_def split: option.splits val.splits)
  have "fieldLoop nm (fp # fps) result j = fieldLoop nm fps result j"
    using v by (cases v) auto
  then show ?case using Cons by simp
qed

text \<open>
  Claim C6. In read mode a footprint whose holder is not an object is dropped by
  \<^verbatim>\<open>evalField\<close>: the outcome is that of the loop over the other footprints alone, so the
  footprint contributes no output footprint and causes no error, for every field name.
  But no warning is recorded for it, against the claim: when no expanded footprint holds
  an object, \<^verbatim>\<open>evalField\<close> returns the empty result with the state it was called with. The
  \<^verbatim>\<open>else\<close> branch for a holder that is not a map is commented out in the source, where the
  handlers for an index and for a slice call \<^verbatim>\<open>AddWarning\<close> in theirs.
\<close>

theorem C6_non_object_dropped_silently:
  assumes "\<not> writeMode j" and "expandFootprints j footprints False = Inr fps"
  shows "evalField j footprints nm = fieldLoop nm (filter (\<lambda>fp. \<not> nonObject j fp) fps) [] j
       \<and> ((\<forall>fp \<in> set fps. nonObject j fp) \<longrightarrow> evalField j footprints nm = (Inr [], j))
       \<and> (nonObject j' fp \<longrightarrow> fieldLoop nm (fp # rest) result j' = fieldLoop nm rest result j')"
proof -
  have e: "evalField j footprints nm = fieldLoop nm fps [] j"
    using assms by (simp add: evalField_def)
  have a: "evalField j footprints nm = fieldLoop nm (filter (\<lambda>fp. \<not> nonObject j fp) fps) [] j"
    using e fieldLoop_drop[OF assms(1)] by simp
  have b: "(\<forall>fp \<in> set fps. nonObject j fp) \<longrightarrow> evalField j footprints nm = (Inr [], j)"
    using e fieldLoop_all_nonObject by simp
  have c: "nonObject j' fp \<longrightarrow> fieldLoop nm (fp # rest) result j' = fieldLoop nm rest result j'"
    using fieldLoop_all_nonObject[of "[fp]" j' nm] 
    by (auto simp: nonObject_def split: option.splits val.splits)
  show ?thesis using a b c by simp
qed

theorem C6_witness:
  "\<not> writeMode (emptyPath False [VArr [VInt 0, VInt 1]])
   \<and> expandFootprints (emptyPath False [VArr [VInt 0, VInt 1]])
       [ArrayFootprint False [] [\<lparr>Virtual = False, RealSize = -1, Index = 0\<rparr>]
          \<lparr>Virtual = False, RealSize = 0\<rparr>] False
     = Inr [ArrayFootprint False [PIdx 0] [] \<lparr>Virtual = False, RealSize = -1\<rparr>]
   \<and> nonObject (emptyPath False [VArr [VInt 0, VInt 1]])
         (ArrayFootprint False [PIdx 0] [] \<lparr>Virtual = False, RealSize = -1\<rparr>)
   \<and> evalField (emptyPath False [VArr [VInt 0, VInt 1]])
       [ArrayFootprint False [] [\<lparr>Virtual = False, RealSize = -1, Index = 0\<rparr>]
          \<lparr>Virtual = False, RealSize = 0\<rparr>] ''key''
     = (Inr [], emptyPath False [VArr [VInt 0, VInt 1]])
   \<and> warnings (snd (evalField (emptyPath False [VArr [VInt 0, VInt 1]])
       [ArrayFootprint False [] [\<lparr>Virtual = False, RealSize = -1, Index = 0\<rparr>]
          \<lparr>Virtual = False, RealSize = 0\<rparr>] ''key'')) = []"
proof -
  let ?j = "emptyPath False [VArr [VInt 0, VInt 1]]"
  have m: "\<not> writeMode ?j" by (simp add: emptyPath_def)
  have e: "expandFootprints ?j
       [ArrayFootprint False [] [\<lparr>Virtual = False, RealSize = -1, Index = 0\<rparr>]
          \<lparr>Virtual = False, RealSize = 0\<rparr>] False
     = Inr [ArrayFootprint False [PIdx 0] [] \<lparr>Virtual = False, RealSize = -1\<rparr>]"
    by (simp add: expandFootprints_def emptyPath_def rootVal_def NewFootprint_def)
  have n: "nonObject ?j (ArrayFootprint False [PIdx 0] [] \<lparr>Virtual = False, RealSize = -1\<rparr>)"
    by (simp add: nonObject_def emptyPath_def rootVal_def)
  have w: "warnings ?j = []" by (simp add: emptyPath_def)
  show ?thesis
    using m e n w C6_non_object_dropped_silently [OF m e, of "''key''"] by simp
qed

section \<open>Growth of arrays in write mode\<close>

lemma valAt_updAt: "valAt root r = Some v \<Longrightarrow> valAt (updAt r f root) r = Some (f v)"
  by (induction root r rule: valAt.induct) (auto split: option.splits if_splits simp: update_conv')


lemma rootVal_writeRoot: "v = VArr ys \<Longrightarrow> rootVal (writeRoot v j) = v"
  by (simp add: rootVal_def writeRoot_def)


lemma writeMode_sliceStore [simp]: "writeMode (sliceStore r i d j) = writeMode j"
  by (simp add: sliceStore_def writeRoot_def split: val.splits)





















section \<open>Reading leaves the document as it is\<close>

lemma sameDoc_refl [simp]: "sameDoc j j"
  by (simp add: sameDoc_def)

lemma sameDoc_trans: "sameDoc a b \<Longrightarrow> sameDoc b c \<Longrightarrow> sameDoc a c"
  by (simp add: sameDoc_def)

lemma sameDoc_AddWarning [simp]: "sameDoc j (AddWarning w j')  = sameDoc j j'"
  by (simp add: sameDoc_def AddWarning_def)

lemma sameDoc_warn: "sameDoc (AddWarning w j) j' \<Longrightarrow> sameDoc j j'"
  by (simp add: sameDoc_def AddWarning_def)

lemma writeMode_AddWarning [simp]: "writeMode (AddWarning w j) = writeMode j"
  by (simp add: AddWarning_def)

lemma rootVal_AddWarning [simp]: "rootVal (AddWarning w j) = rootVal j"
  by (simp add: AddWarning_def rootVal_def)

lemma fieldLoop_read: "\<not> writeMode j \<Longrightarrow> sameDoc j (snd (fieldLoop nm fps result j))"
proof (induction fps arbitrary: result j)
  case Nil
  then show ?case by simp
next
  case (Cons fp fps)
  note ih1 = Cons.IH[OF Cons.prems]
  have "\<not> writeMode (AddWarning (''cannot find the field: '' @ nm) j)"
    using Cons.prems by simp
  note ih2 = sameDoc_warn[OF Cons.IH[OF this]]
  show ?case
    using Cons.prems ih1 ih2
    by (auto split: option.splits val.splits)
qed

lemma arrayLoop_read: "sameDoc j (snd (arrayLoop params fps result j))"
proof (induction fps arbitrary: result j)
  case Nil
  then show ?case by simp
next
  case (Cons fp fps)
  note ih1 = Cons.IH[of j]
  note ih2 = sameDoc_warn[OF Cons.IH[of "AddWarning ''cannot use a index number to find a element in a non-array object'' j"]]
  show ?case
    using ih1 ih2
    by (auto split: option.splits val.splits Footprint.splits sum.splits)
qed

lemma arrayElementLoop_read: "sameDoc j (snd (arrayElementLoop nd fps result j))"
proof (induction fps arbitrary: result j)
  case Nil
  then show ?case by simp
next
  case (Cons fp fps)
  note ih1 = Cons.IH[of j]
  note ih2 = sameDoc_warn[OF Cons.IH[of "AddWarning ''cannot use a index number to find a element in a non-array object'' j"]]
  show ?case
    using ih1 ih2
    by (auto simp: Let_def split: option.splits val.splits Footprint.splits sum.splits)
qed

lemma evalField_read: "\<not> writeMode j \<Longrightarrow> sameDoc j (snd (evalField j fps nm))"
  by (auto simp: evalField_def fieldLoop_read split: sum.splits)

lemma evalArray_read: "\<not> writeMode j \<Longrightarrow> sameDoc j (snd (evalArray j fps params))"
  by (auto simp: evalArray_def arrayLoop_read split: sum.splits)

lemma evalArrayElement_read: "\<not> writeMode j \<Longrightarrow> sameDoc j (snd (evalArrayElement j fps nd))"
  by (auto simp: evalArrayElement_def arrayElementLoop_read split: sum.splits)

lemma leaf_read:
  "snd (evalInt j fps i) = j" "snd (evalBool j fps b) = j" "snd (evalFloat j fps f) = j"
  "snd (evalWildcard j fps) = j" "snd (evalRecursive j fps) = j"
  by (auto simp: evalInt_def evalBool_def evalFloat_def evalWildcard_def evalRecursive_def
           split: sum.splits)

lemma sameDoc_writeMode: "sameDoc j j' \<Longrightarrow> \<not> writeMode j \<Longrightarrow> \<not> writeMode j'"
  by (simp add: sameDoc_def)

lemma walk_read:
  "\<not> writeMode j \<longrightarrow> sameDoc j (snd (walk t j footprints n))"
  "\<not> writeMode j \<longrightarrow> sameDoc j (snd (evalList t j footprints ns))"
  "\<not> writeMode j \<longrightarrow> sameDoc j (snd (evalUnion t j footprints nss result))"
  "\<not> writeMode j \<longrightarrow> sameDoc j (snd (evalFilter t j footprints left right operator))"
  "\<not> writeMode j \<longrightarrow> sameDoc j (snd (filterLoop t j left right operator fps result))"
  "\<not> writeMode j \<longrightarrow> sameDoc j (snd (filterElements t j left right operator els result))"
proof (induction t j footprints n and t j footprints ns and t j footprints nss result
         and t j footprints left right operator and t j left right operator fps result
         and t j left right operator els result
       rule: walk_evalList_evalUnion_evalFilter_filterLoop_filterElements.induct)
  case (14 t j footprints n ns)
  then show ?case
    by (auto simp: sameDoc_def split: prod.splits sum.splits)
next
  case (16 t j footprints n ns result)
  then show ?case
    by (auto simp: sameDoc_def split: prod.splits sum.splits)
next
  case (17 t j footprints left right operator)
  then show ?case
    by (auto simp: sameDoc_def split: prod.splits sum.splits)
next
  case (19 t j left right operator fp fps result)
  show ?case
  proof
    assume w: "\<not> writeMode j"
    show "sameDoc j (snd (filterLoop t j left right operator (fp # fps) result))"
    proof (cases "SelectAll j fp")
      case (Inl e)
      then show ?thesis using 19(1) w by (cases e) auto
    next
      case sel: (Inr selected)
      show ?thesis
      proof (cases "Expand j selected")
        case (Inl e)
        then show ?thesis using 19(2)[OF sel] w sel by (cases e) auto
      next
        case ex: (Inr elements)
        obtain r j' where fe: "(r, j') = filterElements t j left right operator elements result"
          by (metis surj_pair)
        have s: "sameDoc j j'" using 19(3)[OF sel ex] w fe[symmetric] by simp
        show ?thesis
        proof (cases r)
          case (Inl e)
          then show ?thesis using sel ex fe[symmetric] s by simp
        next
          case (Inr res')
          have "\<not> writeMode j'" using s w by (simp add: sameDoc_def)
          then have "sameDoc j' (snd (filterLoop t j' left right operator fps res'))"
            using 19(4)[OF sel ex fe Inr] by simp
          then show ?thesis using sel ex fe[symmetric] s Inr by (auto intro: sameDoc_trans)
        qed
      qed
    qed
  qed
next
  case (21 t j left right operator el elements result)
  show ?case
  proof
    assume w: "\<not> writeMode j"
    obtain r1 j1 where e1: "(r1, j1) = evalList t j [LeaveItAsItIs el] left"
      by (metis surj_pair)
    have s1: "sameDoc j j1" using 21(1)[OF refl] w e1[symmetric] by simp
    have w1: "\<not> writeMode j1" using s1 w by (simp add: sameDoc_def)
    note u1 = e1[symmetric]
    show "sameDoc j (snd (filterElements t j left right operator (el # elements) result))"
    proof (cases r1)
      case l1: (Inl e)
      show ?thesis
      proof (cases "\<exists>x1. e = Err x1 \<and> operator = ''exists''")
        case True
        then obtain x1 where x: "e = Err x1" "operator = ''exists''" by blast
        show ?thesis
          using 21(2)[OF refl e1 l1 x(1) x(2)] w1 s1 u1 l1 x
          by (simp add: sameDoc_def Let_def)
      next
        case False
        then show ?thesis using s1 u1 l1 by (cases e) (auto simp: sameDoc_def Let_def)
      qed
    next
      case r: (Inr lefts)
      show ?thesis
      proof (cases "operator = ''exists''")
        case True
        show ?thesis
          using 21(3)[OF refl e1 r True] w1 s1 u1 r True
          by (simp add: sameDoc_def Let_def)
      next
        case ne: False
        show ?thesis
        proof (cases "expandFootprints j1 lefts True")
          case (Inl e)
          then show ?thesis using s1 u1 r ne by (simp add: sameDoc_def Let_def)
        next
          case xl: (Inr ls)
          show ?thesis
          proof (cases ls)
            case Nil
            show ?thesis
              using 21(4)[OF refl e1 r ne xl Nil] w1 s1 u1 r ne xl Nil
              by (simp add: sameDoc_def Let_def)
          next
            case c1: (Cons l ls')
            show ?thesis
            proof (cases ls')
              case (Cons a list)
              then show ?thesis using s1 u1 r ne xl c1 by (simp add: sameDoc_def Let_def)
            next
              case n1: Nil
              show ?thesis
              proof (cases "HolderPtr j1 l")
                case None
                then show ?thesis using s1 u1 r ne xl c1 n1 by (simp add: sameDoc_def Let_def)
              next
                case hl: (Some leftv)
                obtain r2 j2 where e2: "(r2, j2) = evalList t j1 [LeaveItAsItIs el] right"
                  by (metis surj_pair)
                have s2: "sameDoc j1 j2"
                  using 21(5)[OF refl e1 r ne xl c1 n1 hl] w1 e2[symmetric] by simp
                have w2: "\<not> writeMode j2" using s2 w1 by (simp add: sameDoc_def)
                note u2 = e2[symmetric]
                show ?thesis
                proof (cases r2)
                  case (Inl e)
                  then show ?thesis
                    using s1 s2 u1 u2 r ne xl c1 n1 hl by (simp add: sameDoc_def Let_def)
                next
                  case rr: (Inr rights)
                  show ?thesis
                  proof (cases "expandFootprints j2 rights True")
                    case (Inl e)
                    then show ?thesis
                      using s1 s2 u1 u2 r ne xl c1 n1 hl rr by (simp add: sameDoc_def Let_def)
                  next
                    case xr: (Inr rs)
                    show ?thesis
                    proof (cases rs)
                      case Nil
                      show ?thesis
                        using 21(6)[OF refl e1 r ne xl c1 n1 hl e2 rr xr Nil] w2
                          s1 s2 u1 u2 r ne xl c1 n1 hl rr xr Nil
                        by (simp add: sameDoc_def Let_def)
                    next
                      case c2: (Cons rf rs')
                      show ?thesis
                      proof (cases rs')
                        case (Cons a list)
                        then show ?thesis
                          using s1 s2 u1 u2 r ne xl c1 n1 hl rr xr c2
                          by (simp add: sameDoc_def Let_def)
                      next
                        case n2: Nil
                        show ?thesis
                        proof (cases "HolderPtr j2 rf")
                          case None
                          then show ?thesis
                            using s1 s2 u1 u2 r ne xl c1 n1 hl rr xr c2 n2
                            by (simp add: sameDoc_def Let_def)
                        next
                          case hr: (Some rightv)
                          show ?thesis
                          proof (cases "genericCompare t operator leftv rightv")
                            case gl: (Inl a)
                            have "\<not> writeMode (AddWarning (errorText a) j2)" using w2 by simp
                            then show ?thesis
                              using 21(7)[OF refl e1 r ne xl c1 n1 hl e2 rr xr c2 n2 hr gl]
                                s1 s2 u1 u2 r ne xl c1 n1 hl rr xr c2 n2 hr gl
                              by (simp add: sameDoc_def Let_def AddWarning_def)
                          next
                            case gr: (Inr pass)
                            show ?thesis
                              using 21(8)[OF refl e1 r ne xl c1 n1 hl e2 rr xr c2 n2 hr gr] w2
                                s1 s2 u1 u2 r ne xl c1 n1 hl rr xr c2 n2 hr gr
                              by (simp add: sameDoc_def Let_def)
                          qed
                        qed
                      qed
                    qed
                  qed
                qed
              qed
            qed
          qed
        qed
      qed
    qed
  qed
qed (auto simp: evalField_read evalArray_read evalArrayElement_read leaf_read)

text \<open>
  Claim C9. \<^verbatim>\<open>Get\<close> leaves the document unchanged, for every compiled expression and
  every document: the data holder after the call is the data holder before it, so no
  object or array was created, no field inserted and no array grown. Every handler
  changes at most the warnings when the write mode is off (\<open>walk_read\<close>).
\<close>

theorem C9_get_leaves_document:
  "dataHolder (snd (Get t j)) = dataHolder j"
proof -
  have w: "\<not> writeMode (j\<lparr>writeMode := False\<rparr>)" by simp
  have "sameDoc (j\<lparr>writeMode := False\<rparr>) (snd (FindResult t (j\<lparr>writeMode := False\<rparr>)))"
    using walk_read(2)[of "j\<lparr>writeMode := False\<rparr>" t] w
    by (auto simp: FindResult_def split: option.splits sum.splits list.splits node.splits)
  then have "dataHolder (snd (FindResult t (j\<lparr>writeMode := False\<rparr>))) = dataHolder j"
    by (simp add: sameDoc_def)
  then show ?thesis
    by (auto simp: Get_def split: prod.splits sum.splits)
qed

section \<open>Filters: how many footprints each side yields\<close>

lemmas ab_simps = abDoc_def abElement_def abRoot_def emptyPath_def rootVal_def nullTemplate_def
  expandFootprints_def NewFootprint_def evalField_def evalWildcard_def evalInt_def
  selectAllIndexes_def AddWarning_def genericCompare_def

text \<open>
  Claim C3 as stated fails where its two halves meet. For the element \<^verbatim>\<open>{"a": 1, "b": 2}\<close>
  and the filter \<^verbatim>\<open>[?(@.x == @.*)]\<close> the right side yields two footprints, so the claim
  asks for a hard error; the left side yields none, the element is skipped before the
  right side is looked at, and the evaluation succeeds.
\<close>

theorem C3_counterexample:
  "length (projr (expandFootprints abDoc
       (projr (fst (evalList nullTemplate abDoc [LeaveItAsItIs abElement] [WildcardNode]))) True)) > 1
   \<and> fst (evalFilter nullTemplate abDoc abRoot [FieldNode ''x''] [WildcardNode] ''=='') = Inr []"
  by (simp add: ab_simps)

text \<open>
  Claim C3, amended. With a comparison operator, the left side of a candidate element
  is evaluated and expanded first: no footprint, and the element is skipped (the loop
  goes on with the next element, the right side is not evaluated); more than one, and
  the evaluation fails with a hard error. With exactly one, the right side is evaluated
  and expanded: no footprint, and the element is skipped; more than one, and the
  evaluation fails with a hard error.
\<close>

theorem C3_filter_side_counts:
  assumes "operator \<noteq> ''exists''"
    and "evalList t j [LeaveItAsItIs el] left = (Inr lefts, j1)"
    and "expandFootprints j1 lefts True = Inr ls"
  shows "(ls = [] \<longrightarrow>
            filterElements t j left right operator (el # els) result
            = filterElements t j1 left right operator els result)
       \<and> (1 < length ls \<longrightarrow>
            filterElements t j left right operator (el # els) result
            = (Inl (Err ''can only compare one element at a time''), j1))
       \<and> (\<forall>l leftv rights j2 rs.
            ls = [l] \<and> HolderPtr j1 l = Some leftv
            \<and> evalList t j1 [LeaveItAsItIs el] right = (Inr rights, j2)
            \<and> expandFootprints j2 rights True = Inr rs \<longrightarrow>
              (rs = [] \<longrightarrow>
                 filterElements t j left right operator (el # els) result
                 = filterElements t j2 left right operator els result)
            \<and> (1 < length rs \<longrightarrow>
                 filterElements t j left right operator (el # els) result
                 = (Inl (Err ''can only compare one element at a time''), j2)))"
  using assms
  by (auto simp: Let_def split: list.splits)

theorem C3_witness:
  "''=='' \<noteq> ''exists''
   \<and> filterElements nullTemplate abDoc [FieldNode ''x''] [WildcardNode] ''=='' [abElement] []
       = (Inr [], AddWarning ''cannot find the field: x'' abDoc)
   \<and> filterElements nullTemplate abDoc [WildcardNode] [IntNode 1] ''=='' [abElement] []
       = (Inl (Err ''can only compare one element at a time''), abDoc)
   \<and> filterElements nullTemplate abDoc [FieldNode ''a''] [FieldNode ''x''] ''=='' [abElement] []
       = (Inr [], AddWarning ''cannot find the field: x'' abDoc)
   \<and> filterElements nullTemplate abDoc [FieldNode ''a''] [WildcardNode] ''=='' [abElement] []
       = (Inl (Err ''can only compare one element at a time''), abDoc)"
proof -
  let ?w = "AddWarning ''cannot find the field: x'' abDoc"
  let ?ab = "MapFootprint False [PIdx 0, PIdx 0]
               [\<lparr>Virtual = False, RealSize = -1, Key = ''a''\<rparr>,
                \<lparr>Virtual = False, RealSize = -1, Key = ''b''\<rparr>] False"
  let ?a = "MapFootprint False [PIdx 0, PIdx 0]
               [\<lparr>Virtual = False, RealSize = -1, Key = ''a''\<rparr>] False"
  have ne: "''=='' \<noteq> ''exists''" by simp
  have lx: "evalList nullTemplate abDoc [LeaveItAsItIs abElement] [FieldNode ''x''] = (Inr [], ?w)"
    by (simp add: ab_simps)
  have xx: "expandFootprints ?w [] True = Inr []"
    by (simp add: expandFootprints_def)
  have lw: "evalList nullTemplate abDoc [LeaveItAsItIs abElement] [WildcardNode] = (Inr [?ab], abDoc)"
    by (simp add: ab_simps)
  have xw: "expandFootprints abDoc [?ab] True
              = Inr [NonRefFootprint False (VInt 1), NonRefFootprint False (VInt 2)]"
    by (simp add: ab_simps)
  have la: "evalList nullTemplate abDoc [LeaveItAsItIs abElement] [FieldNode ''a''] = (Inr [?a], abDoc)"
    by (simp add: ab_simps)
  have xa: "expandFootprints abDoc [?a] True = Inr [NonRefFootprint False (VInt 1)]"
    by (simp add: ab_simps)
  have ha: "HolderPtr abDoc (NonRefFootprint False (VInt 1)) = Some (VInt 1)" by simp
  have e: "filterElements nullTemplate j l r ''=='' [] [] = (Inr [], j)" for j l r by simp
  have 1: "filterElements nullTemplate abDoc [FieldNode ''x''] [WildcardNode] ''=='' [abElement] []
       = (Inr [], ?w)"
    using C3_filter_side_counts [OF ne lx xx, of "[WildcardNode]" "[]" "[]"] e by simp
  have 2: "filterElements nullTemplate abDoc [WildcardNode] [IntNode 1] ''=='' [abElement] []
       = (Inl (Err ''can only compare one element at a time''), abDoc)"
    using C3_filter_side_counts [OF ne lw xw, of "[IntNode 1]" "[]" "[]"] by simp
  have 3: "filterElements nullTemplate abDoc [FieldNode ''a''] [FieldNode ''x''] ''=='' [abElement] []
       = (Inr [], ?w)"
    using C3_filter_side_counts [OF ne la xa, of "[FieldNode ''x'']" "[]" "[]"] ha lx xx e
    by simp
  have 4: "filterElements nullTemplate abDoc [FieldNode ''a''] [WildcardNode] ''=='' [abElement] []
       = (Inl (Err ''can only compare one element at a time''), abDoc)"
    using C3_filter_side_counts [OF ne la xa, of "[WildcardNode]" "[]" "[]"] ha lw xw
    by simp
  show ?thesis using ne 1 2 3 4 by simp
qed

section \<open>Expressions that must be rejected\<close>

lemma Get_unexpected:
  "fst (Get t (j\<lparr>parser := Some [ListNode (IdentifierNode v # ns)]\<rparr>)) = Inl (Err ''unexpected Node'')"
  by (simp add: Get_def FindResult_def NewFootprint_def rootVal_def)

lemma Get_empty:
  "fst (Get t (j\<lparr>parser := Some [ListNode []]\<rparr>)) = Inl (Err ''cannot handle empty expression'')"
  by (simp add: Get_def FindResult_def NewFootprint_def rootVal_def)

lemma evalList_then_identifier:
  "\<exists>e. fst (evalList t j fps [n, IdentifierNode v]) = Inl e"
  by (cases "walk t j fps n"; cases "fst (walk t j fps n)") auto

lemma Get_field_then_identifier:
  "\<exists>e. fst (Get t (j\<lparr>parser := Some [ListNode [FieldNode f, IdentifierNode v]]\<rparr>)) = Inl e"
proof -
  let ?j = "j\<lparr>parser := Some [ListNode [FieldNode f, IdentifierNode v]], writeMode := False\<rparr>"
  let ?sel = "ArrayFootprint False [] (selectAllIndexes (length (dataHolder j))) \<lparr>Virtual = False, RealSize = 0\<rparr>"
  obtain e where e: "fst (evalList t ?j [?sel] [FieldNode f, IdentifierNode v]) = Inl e"
    using evalList_then_identifier by blast
  then show ?thesis
    by (auto simp: Get_def FindResult_def NewFootprint_def rootVal_def split: prod.splits sum.splits)
qed

text \<open>
  Claim C7 as stated fails: \<^verbatim>\<open>$a\<close> compiles. The parser takes the bare word for an
  identifier node and \<^verbatim>\<open>New\<close> returns a path.
\<close>

theorem C7_counterexample:
  "New ''t'' ''$a'' = Inr \<lparr>name = ''t'', parser = Some [ListNode [IdentifierNode ''a'']],
        writeMode = False, dataHolder = [], warnings = []\<rparr>"
  by code_simp

text \<open>
  Claim C7, amended. Of the eight expressions, \<^verbatim>\<open>$[key]\<close>, \<^verbatim>\<open>$.[key]\<close>, \<^verbatim>\<open>[two.some]\<close> and
  \<^verbatim>\<open>$['single'quote']\<close> are rejected when they are compiled: \<^verbatim>\<open>New\<close> returns the error
  \<^verbatim>\<open>cannot parse jsonpath string\<close>. The other four, \<^verbatim>\<open>$a\<close>, \<^verbatim>\<open>key\<close>, \<^verbatim>\<open>$. a\<close> and the empty
  string, compile, to the paths given here, and are rejected when they are evaluated:
  \<^verbatim>\<open>Get\<close> on such a path returns an error whatever the document is, because no handler
  takes an identifier node and the empty list is refused by \<^verbatim>\<open>FindResult\<close>.
\<close>

theorem C7_rejected_inputs:
  "New nm ''$[key]'' = Inl (Err ''cannot parse jsonpath string'')
   \<and> New nm ''$.[key]'' = Inl (Err ''cannot parse jsonpath string'')
   \<and> New nm ''[two.some]'' = Inl (Err ''cannot parse jsonpath string'')
   \<and> New nm (''$['' @ [CHR 0x27] @ ''single'' @ [CHR 0x27] @ ''quote'' @ [CHR 0x27] @ '']'')
       = Inl (Err ''cannot parse jsonpath string'')
   \<and> New nm ''$a'' = Inr \<lparr>name = nm, parser = Some [ListNode [IdentifierNode ''a'']],
        writeMode = False, dataHolder = [], warnings = []\<rparr>
   \<and> New nm ''key'' = Inr \<lparr>name = nm, parser = Some [ListNode [IdentifierNode ''key'']],
        writeMode = False, dataHolder = [], warnings = []\<rparr>
   \<and> New nm ''$. a'' = Inr \<lparr>name = nm, parser = Some [ListNode [FieldNode [], IdentifierNode ''a'']],
        writeMode = False, dataHolder = [], warnings = []\<rparr>
   \<and> New nm [] = Inr \<lparr>name = nm, parser = Some [ListNode []],
        writeMode = False, dataHolder = [], warnings = []\<rparr>
   \<and> fst (Get t (j\<lparr>parser := Some [ListNode [IdentifierNode ''a'']]\<rparr>)) = Inl (Err ''unexpected Node'')
   \<and> fst (Get t (j\<lparr>parser := Some [ListNode [IdentifierNode ''key'']]\<rparr>)) = Inl (Err ''unexpected Node'')
   \<and> (\<exists>e. fst (Get t (j\<lparr>parser := Some [ListNode [FieldNode [], IdentifierNode ''a'']]\<rparr>)) = Inl e)
   \<and> fst (Get t (j\<lparr>parser := Some [ListNode []]\<rparr>)) = Inl (Err ''cannot handle empty expression'')"
proof -
  have a: "New nm ''$[key]'' = Inl (Err ''cannot parse jsonpath string'')" by code_simp
  have b: "New nm ''$.[key]'' = Inl (Err ''cannot parse jsonpath string'')" by code_simp
  have c: "New nm ''[two.some]'' = Inl (Err ''cannot parse jsonpath string'')" by code_simp
  have d: "New nm (''$['' @ [CHR 0x27] @ ''single'' @ [CHR 0x27] @ ''quote'' @ [CHR 0x27] @ '']'')
       = Inl (Err ''cannot parse jsonpath string'')" by code_simp
  have e: "New nm ''$a'' = Inr \<lparr>name = nm, parser = Some [ListNode [IdentifierNode ''a'']],
        writeMode = False, dataHolder = [], warnings = []\<rparr>" by code_simp
  have f: "New nm ''key'' = Inr \<lparr>name = nm, parser = Some [ListNode [IdentifierNode ''key'']],
        writeMode = False, dataHolder = [], warnings = []\<rparr>" by code_simp
  have g: "New nm ''$. a'' = Inr \<lparr>name = nm, parser = Some [ListNode [FieldNode [], IdentifierNode ''a'']],
        writeMode = False, dataHolder = [], warnings = []\<rparr>" by code_simp
  have h: "New nm [] = Inr \<lparr>name = nm, parser = Some [ListNode []],
        writeMode = False, dataHolder = [], warnings = []\<rparr>" by code_simp
  show ?thesis
    using a b c d e f g h Get_unexpected Get_empty Get_field_then_identifier by simp
qed

section \<open>A dot followed by a terminator\<close>






end
